theory Spec2Isabelle
  imports Complex_Main "HOL-Library.Sublist" "HOL-Library.Char_ord" "HOL-Library.List_Lexorder"
begin

section \<open>Python strings\<close>

text \<open>
  A Python \<open>str\<close> is modelled as a \<open>string\<close> of ASCII characters.  Code points beyond
  ASCII (where \<open>str.lower\<close> and \<open>str.isspace\<close> follow the Unicode tables) are outside the
  model.  The character classes are given by explicit tables, so that they evaluate on
  literals.
\<close>

definition NL :: string where
  "NL = [CHR 0x0A]"

text \<open>\<open>str.isspace\<close> and the regular expression class \<open>\s\<close> on ASCII: the code points 9 to
  13, 28 to 31 and 32.\<close>

definition is_space :: "char \<Rightarrow> bool" where
  "is_space c = (c \<in> set [CHR 0x09, CHR 0x0A, CHR 0x0B, CHR 0x0C, CHR 0x0D,
                           CHR 0x1C, CHR 0x1D, CHR 0x1E, CHR 0x1F, CHR 0x20])"

definition is_digit :: "char \<Rightarrow> bool" where
  "is_digit c = (c \<in> set ''0123456789'')"

definition digit_val :: "char \<Rightarrow> nat" where
  "digit_val c = (case map_of (zip ''0123456789'' [0, 1, 2, 3, 4, 5, 6, 7, 8, 9]) c of
                    None \<Rightarrow> 0 | Some d \<Rightarrow> d)"

text \<open>The decimal value of a run of digits.\<close>

definition dec :: "string \<Rightarrow> nat" where
  "dec ds = foldl (\<lambda>n c. 10 * n + digit_val c) 0 ds"

definition lower_char :: "char \<Rightarrow> char" where
  "lower_char c = (case map_of (zip ''ABCDEFGHIJKLMNOPQRSTUVWXYZ''
                                    ''abcdefghijklmnopqrstuvwxyz'') c of
                     None \<Rightarrow> c | Some d \<Rightarrow> d)"

text \<open>\<open>s.lower()\<close>\<close>

definition py_lower :: "string \<Rightarrow> string" where
  "py_lower s = map lower_char s"

text \<open>\<open>s.lstrip()\<close>, \<open>s.rstrip()\<close> and \<open>s.strip()\<close> without argument.\<close>

definition py_lstrip :: "string \<Rightarrow> string" where
  "py_lstrip s = dropWhile is_space s"

definition py_rstrip :: "string \<Rightarrow> string" where
  "py_rstrip s = rev (dropWhile is_space (rev s))"

definition py_strip :: "string \<Rightarrow> string" where
  "py_strip s = py_lstrip (py_rstrip s)"

text \<open>\<open>sep.join(parts)\<close>\<close>

fun py_join :: "string \<Rightarrow> string list \<Rightarrow> string" where
  "py_join sep [] = []"
| "py_join sep [p] = p"
| "py_join sep (p # q # ps) = p @ sep @ py_join sep (q # ps)"

text \<open>\<open>needle in hay\<close> on strings: the needle occurs at some position of the hay.\<close>

fun py_in :: "string \<Rightarrow> string \<Rightarrow> bool" where
  "py_in needle [] = (needle = [])"
| "py_in needle (h # hs) = (prefix needle (h # hs) \<or> py_in needle hs)"

text \<open>\<open>re.sub(r"\s+", " ", txt)\<close>: every maximal run of whitespace becomes one space.  The
  flag says that the previous character belonged to a run that has been replaced
  already.\<close>

fun sub_ws :: "bool \<Rightarrow> string \<Rightarrow> string" where
  "sub_ws in_run [] = []"
| "sub_ws in_run (c # cs) =
     (if is_space c then (if in_run then sub_ws True cs else CHR '' '' # sub_ws True cs)
      else c # sub_ws False cs)"

text \<open>A text of whitespace only (the empty text too).\<close>

definition blank :: "string \<Rightarrow> bool" where
  "blank s = list_all is_space s"

text \<open>\<open>x or ""\<close> for a value that is \<open>None\<close> or a \<open>str\<close>.\<close>

fun or_empty :: "string option \<Rightarrow> string" where
  "or_empty None = []"
| "or_empty (Some s) = s"



section \<open>Python floats and the values of an amount\<close>

text \<open>
  A finite float is modelled by the real number it denotes; the three special values are
  constructors of their own.  Every comparison of a float with the integer constants
  \<open>100\<close> and \<open>1000\<close> is exact in Python, and every comparison with a NaN is false.
\<close>

datatype pyfloat = Fin real | PInf | NInf | NaN

text \<open>\<open>f < c\<close> for a float \<open>f\<close> and an integer constant \<open>c\<close>.\<close>

fun flt_less :: "pyfloat \<Rightarrow> real \<Rightarrow> bool" where
  "flt_less (Fin v) c = (v < c)"
| "flt_less NInf c = True"
| "flt_less PInf c = False"
| "flt_less NaN c = False"

text \<open>
  The values that reach the amount argument: \<open>None\<close> (no amount was found), a float (the
  guess of the extractor at scoring time; a cell of a numeric column at training time,
  where pandas stores a missing cell as NaN), or a \<open>str\<close> (a cell of a column that pandas
  could not read as numbers).
\<close>

datatype pyval = PyNone | PyFloat pyfloat | PyStr string

text \<open>
  \<open>digitpart ::= digit (["_"] digit)*\<close> of the grammar of \<open>float()\<close>: the digits read from
  the front of the text, without the underscores, and the rest of the text.
\<close>

fun take_digits :: "string \<Rightarrow> string \<times> string" where
  "take_digits [] = ([], [])"
| "take_digits [c] = (if is_digit c then ([c], []) else ([], [c]))"
| "take_digits (c # d # r) =
     (if \<not> is_digit c then ([], c # d # r)
      else if d = CHR ''_'' then
        (case r of
           [] \<Rightarrow> ([c], d # r)
         | e # r' \<Rightarrow> if is_digit e then (let (ds, rest) = take_digits r in (c # ds, rest))
                    else ([c], d # r))
      else (let (ds, rest) = take_digits (d # r) in (c # ds, rest)))"

text \<open>An optional sign: whether it is a minus, and the text after it.\<close>

fun take_sign :: "string \<Rightarrow> bool \<times> string" where
  "take_sign [] = (False, [])"
| "take_sign (c # cs) =
     (if c = CHR ''-'' then (True, cs) else if c = CHR ''+'' then (False, cs)
      else (False, c # cs))"

text \<open>\<open>exponent ::= ("e" | "E") [sign] digitpart\<close>, or nothing: the exponent and the rest of
  the text; \<open>None\<close> when an exponent starts and has no digits.\<close>

fun take_exponent :: "string \<Rightarrow> (int \<times> string) option" where
  "take_exponent [] = Some (0, [])"
| "take_exponent (c # cs) =
     (if c = CHR ''e'' \<or> c = CHR ''E'' then
        (let (neg, r) = take_sign cs; (ds, rest) = take_digits r
         in if ds = [] then None
            else Some (if neg then - int (dec ds) else int (dec ds), rest))
      else Some (0, c # cs))"

text \<open>\<open>m * 10 ** e\<close> for an integer exponent.\<close>

definition scale10 :: "nat \<Rightarrow> int \<Rightarrow> real" where
  "scale10 m e = (if 0 \<le> e then real m * 10 ^ nat e else real m / 10 ^ nat (- e))"

text \<open>
  \<open>float(s)\<close> for a \<open>str\<close>: surrounding whitespace is dropped, then an optional sign, then
  \<open>inf\<close>, \<open>infinity\<close> or \<open>nan\<close> in any case, or a decimal number with an optional exponent.
  \<open>None\<close> stands for the \<open>ValueError\<close> of any other text.  The value is the decimal value
  of the text; Python returns the double nearest to it (and an infinity beyond the range
  of the doubles).  That rounding is monotone and leaves \<open>100\<close> and \<open>1000\<close> fixed, so both
  values compare alike with these two constants.
\<close>

definition float_of_str :: "string \<Rightarrow> pyfloat option" where
  "float_of_str s =
     (let (neg, t) = take_sign (py_strip s); low = py_lower t in
      if low = ''inf'' \<or> low = ''infinity'' then Some (if neg then NInf else PInf)
      else if low = ''nan'' then Some NaN
      else
        (let (ip, r1) = take_digits t;
             (fp, r2) = (case r1 of [] \<Rightarrow> ([], [])
                         | c # cs \<Rightarrow> if c = CHR ''.'' then take_digits cs else ([], c # cs))
         in if ip = [] \<and> fp = [] then None
            else (case take_exponent r2 of
                    None \<Rightarrow> None
                  | Some (e, r3) \<Rightarrow>
                      if r3 \<noteq> [] then None
                      else (let v = scale10 (dec (ip @ fp)) (e - int (length fp))
                            in Some (Fin (if neg then - v else v))))))"

text \<open>\<open>float(v)\<close>: \<open>None\<close> stands for the exception (\<open>TypeError\<close> for \<open>None\<close>, \<open>ValueError\<close> for a
  text that is no number).\<close>

fun py_float :: "pyval \<Rightarrow> pyfloat option" where
  "py_float PyNone = None"
| "py_float (PyFloat f) = Some f"
| "py_float (PyStr s) = float_of_str s"

text \<open>
  \<open>round(x)\<close> without a second argument: the nearest integer, a tie going to the even
  one.
\<close>

definition py_round :: "real \<Rightarrow> int" where
  "py_round x =
     (let f = \<lfloor>x\<rfloor>; d = x - of_int f
      in if d < 1 / 2 then f else if 1 / 2 < d then f + 1
         else if even f then f else f + 1)"

text \<open>
  The arithmetic of doubles (IEEE 754 binary64), for the one product of the scoring
  function.  \<open>expo x\<close> is the binary exponent of a positive real: \<open>2 ^ expo x \<le> x < 2 ^ (expo x + 1)\<close>.
\<close>

function expo :: "real \<Rightarrow> int" where
  "expo x = (if x \<le> 0 then 0
             else if 2 \<le> x then expo (x / 2) + 1
             else if x < 1 then expo (x * 2) - 1
             else 0)"
  by pat_completeness auto
termination
proof (relation "measure (\<lambda>x. nat \<bar>\<lfloor>log 2 x\<rfloor>\<bar>)")
  show "wf (measure (\<lambda>x. nat \<bar>\<lfloor>log 2 x\<rfloor>\<bar>))" by simp
next
  fix x :: real
  assume "\<not> x \<le> 0" "2 \<le> x"
  then have "1 \<le> log 2 x" by (simp add: le_log_iff)
  then have "1 \<le> \<lfloor>log 2 x\<rfloor>" by linarith
  moreover have "log 2 (x / 2) = log 2 x - 1"
    using \<open>\<not> x \<le> 0\<close> by (simp add: log_divide)
  ultimately show "(x / 2, x) \<in> measure (\<lambda>x. nat \<bar>\<lfloor>log 2 x\<rfloor>\<bar>)"
    by simp
next
  fix x :: real
  assume "\<not> x \<le> 0" "\<not> 2 \<le> x" "x < 1"
  then have "log 2 x < 0" by simp
  then have "\<lfloor>log 2 x\<rfloor> \<le> - 1" by linarith
  moreover have "log 2 (x * 2) = log 2 x + 1"
    using \<open>\<not> x \<le> 0\<close> by (simp add: log_mult)
  ultimately show "(x * 2, x) \<in> measure (\<lambda>x. nat \<bar>\<lfloor>log 2 x\<rfloor>\<bar>)"
    by simp
qed

declare expo.simps [simp del]

text \<open>
  The double nearest to a real, a tie going to the even mantissa: the result of a double
  operation whose exact result is \<open>x\<close>.  The unit in the last place is \<open>2 ^ (e - 52)\<close> for the
  exponent \<open>e\<close> of \<open>x\<close>, and \<open>2 ^ -1074\<close> for the subnormal numbers; a result from \<open>2 ^ 1024\<close>
  on is an infinity.
\<close>

definition double_round :: "real \<Rightarrow> pyfloat" where
  "double_round x =
     (if x = 0 then Fin 0
      else (let e = max (expo \<bar>x\<bar>) (- 1022);
                ulp = 2 powi (e - 52);
                y = real_of_int (py_round (\<bar>x\<bar> / ulp)) * ulp
            in if 2 powi 1024 \<le> y then (if 0 < x then PInf else NInf)
               else Fin (if 0 < x then y else - y)))"

text \<open>An instance of \<open>Exception\<close>, by the name of its class.\<close>

datatype exn = Exn string


section \<open>The codec and the model at scoring time (ai\_fraud\_ml.py)\<close>

text \<open>
  The functions of ai\_fraud\_ml.py whose names start with an underscore carry the prefix
  \<open>ml\<close> instead: \<open>ml_amt_token\<close> is \<open>_amt_token\<close>, \<open>ml_combine\<close> is \<open>_combine\<close>, \<open>ml_load\<close> in
  the environment below is the result of \<open>_load()\<close>.
  \<^verbatim>\<open>
  def _amt_token(v):
      try:
          v = float(v)
          if v < 100: return "AMOUNT_BIN:LOW"
          if v < 1000: return "AMOUNT_BIN:MED"
          return "AMOUNT_BIN:HIGH"
      except Exception:
          return "AMOUNT_BIN:UNK"
  \<close>
\<close>

definition ml_amt_token :: "pyval \<Rightarrow> string" where
  "ml_amt_token v =
     (case py_float v of
        None \<Rightarrow> ''AMOUNT_BIN:UNK''
      | Some f \<Rightarrow>
          if flt_less f 100 then ''AMOUNT_BIN:LOW''
          else if flt_less f 1000 then ''AMOUNT_BIN:MED''
          else ''AMOUNT_BIN:HIGH'')"

text \<open>
  \<^verbatim>\<open>
  def _combine(subject, body, from_domain, reply_domain, attachment_types, amount):
      txt = "\n".join([
          subject or "", body or "",
          f"FROM:{(from_domain or '').lower()}",
          f"REPLY:{(reply_domain or '').lower()}",
          f"ATTACH:{(attachment_types or '').lower()}",
          _amt_token(amount)
      ])
      return re.sub(r"\s+"," ", txt).strip()
  \<close>
\<close>

definition ml_combine ::
  "string option \<Rightarrow> string option \<Rightarrow> string option \<Rightarrow> string option \<Rightarrow> string option \<Rightarrow>
   pyval \<Rightarrow> string" where
  "ml_combine subject body from_domain reply_domain attachment_types amount =
     (let txt = py_join NL
        [or_empty subject, or_empty body,
         ''FROM:'' @ py_lower (or_empty from_domain),
         ''REPLY:'' @ py_lower (or_empty reply_domain),
         ''ATTACH:'' @ py_lower (or_empty attachment_types),
         ml_amt_token amount]
      in py_strip (sub_ws False txt))"

text \<open>
  The last line of both codecs, \<open>re.sub(r"\s+"," ", txt).strip()\<close>, and the component
  that one field contributes to a CombinedText: its normalised text and one space behind
  it, or nothing when the field is blank.
\<close>

definition normalise :: "string \<Rightarrow> string" where
  "normalise txt = py_strip (sub_ws False txt)"

definition segment :: "string \<Rightarrow> string" where
  "segment x = (if normalise x = [] then [] else normalise x @ '' '')"

text \<open>
  The six components of a CombinedText, in the order of the list that \<open>_combine\<close> joins:
  those of the subject, of the body, of the three marked lines and the amount token.
\<close>

definition components ::
  "string option \<Rightarrow> string option \<Rightarrow> string option \<Rightarrow> string option \<Rightarrow> string option \<Rightarrow>
   pyval \<Rightarrow> string list" where
  "components subject body from_domain reply_domain attachment_types amount =
     [segment (or_empty subject), segment (or_empty body),
      segment (''FROM:'' @ py_lower (or_empty from_domain)),
      segment (''REPLY:'' @ py_lower (or_empty reply_domain)),
      segment (''ATTACH:'' @ py_lower (or_empty attachment_types)),
      ml_amt_token amount]"

text \<open>
  The two artefacts that \<open>_load()\<close> returns, by what the scoring function asks of them.
  The vectorised text \<open>X\<close> is modelled by \<open>X.nonzero()[1]\<close>, the vocabulary indices of the
  tokens that occur in the text; each call of the library either returns or raises.
  Probabilities and weights are finite floats, modelled by the reals they denote.
\<close>

record fraud_model =
  vec_transform :: "string \<Rightarrow> exn + nat list"
  clf_predict_proba :: "nat list \<Rightarrow> exn + real"
  vec_get_feature_names_out :: "exn + string list"
  clf_coef :: "exn + real list"

text \<open>
  The body of the \<open>try\<close> block of \<open>predict_email_risk\<close>, up to the pairs whose tokens are
  returned:
  \<^verbatim>\<open>
      feats = vec.get_feature_names_out()
      weights = clf.coef_[0]
      idx = X.nonzero()[1]
      toks = [(feats[i], weights[i]) for i in idx]
      toks.sort(key=lambda x: x[1], reverse=True)
      top_tokens = [t for t,w in toks[:5] if w>0][:5]
  \<close>
  An index beyond \<open>feats\<close> or \<open>weights\<close> raises \<open>IndexError\<close>.  A sort with \<open>reverse=True\<close>
  is stable, as \<open>sort_key\<close> on the negated weight is.
\<close>

definition top_pairs :: "fraud_model \<Rightarrow> nat list \<Rightarrow> exn + (string \<times> real) list" where
  "top_pairs m idx =
     (case vec_get_feature_names_out m of
        Inl e \<Rightarrow> Inl e
      | Inr feats \<Rightarrow>
          (case clf_coef m of
             Inl e \<Rightarrow> Inl e
           | Inr weights \<Rightarrow>
               if \<exists>i \<in> set idx. length feats \<le> i \<or> length weights \<le> i
               then Inl (Exn ''IndexError'')
               else (let toks = map (\<lambda>i. (feats ! i, weights ! i)) idx;
                         toks = sort_key (\<lambda>x. - snd x) toks
                     in Inr (take 5 (filter (\<lambda>(t, w). 0 < w) (take 5 toks))))))"

text \<open>
  \<^verbatim>\<open>
  def predict_email_risk(subject, body, from_domain, reply_domain, attachment_types, amount):
      clf, vec = _load()
      X = vec.transform([_combine(subject, body, from_domain, reply_domain, attachment_types, amount)])
      proba = float(clf.predict_proba(X)[0,1])
      risk_score = int(round(proba*100))
      try:
          ...
      except Exception:
          top_tokens = []
      return {"risk_score": risk_score, "top_tokens": top_tokens}
  \<close>
  The first argument is the result of \<open>_load()\<close>: the model, or the exception of a missing
  or unreadable artefact.  The returned dictionary is the pair of its two values.  The
  product \<open>proba*100\<close> is the double product, \<open>double_round\<close> of the exact one, and \<open>round\<close>
  raises \<open>OverflowError\<close> on an infinity and \<open>ValueError\<close> on a NaN.
\<close>

definition predict_email_risk ::
  "exn + fraud_model \<Rightarrow> string option \<Rightarrow> string option \<Rightarrow> string option \<Rightarrow> string option \<Rightarrow>
   string option \<Rightarrow> pyval \<Rightarrow> exn + (int \<times> string list)" where
  "predict_email_risk ml_load subject body from_domain reply_domain attachment_types amount =
     (case ml_load of
        Inl e \<Rightarrow> Inl e
      | Inr m \<Rightarrow>
          (case vec_transform m
                  (ml_combine subject body from_domain reply_domain attachment_types amount) of
             Inl e \<Rightarrow> Inl e
           | Inr X \<Rightarrow>
               (case clf_predict_proba m X of
                  Inl e \<Rightarrow> Inl e
                | Inr proba \<Rightarrow>
                    (case double_round (proba * 100) of
                       Fin x \<Rightarrow>
                         (let risk_score = py_round x;
                              top_tokens = (case top_pairs m X of
                                              Inl e \<Rightarrow> []
                                            | Inr ps \<Rightarrow> map fst ps)
                          in Inr (risk_score, top_tokens))
                     | PInf \<Rightarrow> Inl (Exn ''OverflowError'')
                     | NInf \<Rightarrow> Inl (Exn ''OverflowError'')
                     | NaN \<Rightarrow> Inl (Exn ''ValueError'')))))"


section \<open>The codec at training time (train\_model.py)\<close>

text \<open>
  \<^verbatim>\<open>
  def amt_token(val):
      try:
          v = float(val)
          if v < 100: return "AMOUNT_BIN:LOW"
          if v < 1000: return "AMOUNT_BIN:MED"
          return "AMOUNT_BIN:HIGH"
      except Exception:
          return "AMOUNT_BIN:UNK"
  \<close>
\<close>

definition amt_token :: "pyval \<Rightarrow> string" where
  "amt_token val =
     (case py_float val of
        None \<Rightarrow> ''AMOUNT_BIN:UNK''
      | Some v \<Rightarrow>
          if flt_less v 100 then ''AMOUNT_BIN:LOW''
          else if flt_less v 1000 then ''AMOUNT_BIN:MED''
          else ''AMOUNT_BIN:HIGH'')"

text \<open>
  A row of the labelled table, by the columns that \<open>combine\<close> reads.  A text cell is \<open>None\<close>
  or a \<open>str\<close>, so \<open>str(cell or "")\<close> is \<open>or_empty\<close>.
  \<^verbatim>\<open>
  def combine(row):
      subject = str(row.get("subject","") or "")
      body = str(row.get("body","") or "")
      from_dom = str(row.get("from_domain","") or "")
      reply_dom = str(row.get("reply_domain","") or "")
      attach = str(row.get("attachment_types","") or "")
      amt = row.get("amount","")
      txt = "\n".join([subject, body, f"FROM:{from_dom}", f"REPLY:{reply_dom}",
                       f"ATTACH:{attach}", amt_token(amt)])
      return re.sub(r"\s+"," ", txt).strip()
  \<close>
\<close>

record table_row =
  col_subject :: "string option"
  col_body :: "string option"
  col_from_domain :: "string option"
  col_reply_domain :: "string option"
  col_attachment_types :: "string option"
  col_amount :: pyval

definition combine :: "table_row \<Rightarrow> string" where
  "combine row =
     (let subject = or_empty (col_subject row);
          body = or_empty (col_body row);
          from_dom = or_empty (col_from_domain row);
          reply_dom = or_empty (col_reply_domain row);
          attach = or_empty (col_attachment_types row);
          amt = col_amount row;
          txt = py_join NL [subject, body, ''FROM:'' @ from_dom, ''REPLY:'' @ reply_dom,
                            ''ATTACH:'' @ attach, amt_token amt]
      in py_strip (sub_ws False txt))"


section \<open>Parsing helpers (main.py)\<close>

text \<open>
  \<^verbatim>\<open>
  def domain_from_header(header_value: str) -> str:
      """'Name <user@acme.com>' -> 'acme.com'."""
      name, email_addr = parseaddr(header_value or "")
      return email_addr.split("@")[1].lower() if email_addr and "@" in email_addr else ""
  \<close>
  \<open>parseaddr\<close> is the function of the standard library (email.utils); it is a parameter.
  The second element of \<open>email_addr.split("@")\<close> is the text between the first \<open>@\<close> and the
  next one.
\<close>

definition domain_from_header :: "(string \<Rightarrow> string \<times> string) \<Rightarrow> string \<Rightarrow> string" where
  "domain_from_header parseaddr header_value =
     (let (name, email_addr) = parseaddr header_value
      in if email_addr \<noteq> [] \<and> CHR ''@'' \<in> set email_addr
         then py_lower (takeWhile (\<lambda>c. c \<noteq> CHR ''@'')
                          (tl (dropWhile (\<lambda>c. c \<noteq> CHR ''@'') email_addr)))
         else [])"

text \<open>
  The second component of \<open>os.path.splitext(p)\<close> (posixpath): the text from the last dot
  of the last path component on, and nothing when that component has no dot or only dots
  before it.
\<close>

definition splitext_ext :: "string \<Rightarrow> string" where
  "splitext_ext p =
     (let base = rev (takeWhile (\<lambda>c. c \<noteq> CHR ''/'') (rev p));
          ext = rev (takeWhile (\<lambda>c. c \<noteq> CHR ''.'') (rev base));
          stem = rev (tl (dropWhile (\<lambda>c. c \<noteq> CHR ''.'') (rev base)))
      in if CHR ''.'' \<in> set base \<and> (\<exists>c \<in> set stem. c \<noteq> CHR ''.'') then CHR ''.'' # ext
         else [])"

text \<open>
  \<^verbatim>\<open>
  def attachment_types_from_list(names):
      """Return comma-separated lowercase file extensions from attachment names."""
      exts = []
      for n in names or []:
          _, ext = os.path.splitext((n or "").strip())
          if ext:
              exts.append(ext.lstrip(".").lower())
      return ",".join(sorted(set(exts))) if exts else ""
  \<close>
\<close>

definition attachment_types_from_list :: "string list \<Rightarrow> string" where
  "attachment_types_from_list names =
     (let exts = map (\<lambda>ext. py_lower (dropWhile (\<lambda>c. c = CHR ''.'') ext))
                   (filter (\<lambda>ext. ext \<noteq> []) (map (\<lambda>n. splitext_ext (py_strip n)) names))
      in if exts \<noteq> [] then py_join '','' (sort (remdups exts)) else [])"

text \<open>
  \<^verbatim>\<open>
  def extract_amount_guess(text: str):
      """Very simple amount extractor: looks for a number like 123.45 in the email body."""
      if not text:
          return None
      m = re.search(r'([0-9]+(?:\.[0-9]{2})?)', text)
      if m:
          try:
              return float(m.group(1))
          except ValueError:
              return None
      return None
  \<close>
  The search finds the leftmost match: it starts at the first digit of the text, takes
  the whole run of digits there and then, when a dot and two digits follow, these too.  The
  matched text is always a number for \<open>float\<close>; its value is the decimal value (the double
  nearest to it in Python).
\<close>

definition extract_amount_guess :: "string \<Rightarrow> real option" where
  "extract_amount_guess text =
     (if text = [] then None
      else (case dropWhile (\<lambda>c. \<not> is_digit c) text of
              [] \<Rightarrow> None
            | m \<Rightarrow>
                (let ip = takeWhile is_digit m; rest = dropWhile is_digit m
                 in (case rest of
                       p # a # b # _ \<Rightarrow>
                         if p = CHR ''.'' \<and> is_digit a \<and> is_digit b
                         then Some (real (dec ip) + real (dec [a, b]) / 100)
                         else Some (real (dec ip))
                     | _ \<Rightarrow> Some (real (dec ip))))))"


section \<open>Decoding a message (main.py)\<close>

text \<open>
  A parsed message is a tree of parts.  A leaf has its content type, its
  Content-Disposition header (empty when absent), its decoded file name (empty when
  absent), the text that \<open>get_content()\<close> or the fallback of the \<open>except\<close> branch yields, and
  the length of its decoded payload.  A container (\<open>is_multipart()\<close>) has its parts; its
  content type is \<open>multipart/*\<close> or \<open>message/*\<close> in every message the parser builds.  For a
  container \<open>get_payload(decode=True)\<close> is \<open>None\<close>: \<open>get_content()\<close> raises on it, the fallback
  yields the empty text, and its payload has length \<open>0\<close>.
\<close>

datatype part =
  Leaf (ctype: string) (disp: string) (filename: string) (content: string) (payload_len: nat)
| Multi (ctype: string) (disp: string) (filename: string) (subparts: "part list")

text \<open>\<open>msg.walk()\<close>: the part itself, then the walk of each of its parts in turn.\<close>

fun walk :: "part \<Rightarrow> part list" where
  "walk (Leaf c d f t n) = [Leaf c d f t n]"
| "walk (Multi c d f ps) = Multi c d f ps # concat (map walk ps)"

fun part_text :: "part \<Rightarrow> string" where
  "part_text (Leaf c d f t n) = t"
| "part_text (Multi c d f ps) = []"

fun part_size :: "part \<Rightarrow> nat" where
  "part_size (Leaf c d f t n) = n"
| "part_size (Multi c d f ps) = 0"

text \<open>The test \<open>"attachment" in disp.lower()\<close> of both walks.\<close>

definition is_attachment :: "part \<Rightarrow> bool" where
  "is_attachment p = py_in ''attachment'' (py_lower (disp p))"

text \<open>
  \<^verbatim>\<open>
  def extract_text_body(msg):
      if msg.is_multipart():
          parts = []
          for part in msg.walk():
              ctype = part.get_content_type()
              disp = str(part.get("Content-Disposition", ""))
              if ctype == "text/plain" and "attachment" not in disp.lower():
                  try:
                      parts.append(part.get_content())
                  except Exception:
                      payload = part.get_payload(decode=True) or b""
                      parts.append(payload.decode(errors="ignore"))
          return "\n".join(parts).strip()
      else:
          if msg.get_content_type() == "text/plain":
              try:
                  return msg.get_content()
              except Exception:
                  return (msg.get_payload(decode=True) or b"").decode(errors="ignore")
          return ""
  \<close>
\<close>

fun extract_text_body :: "part \<Rightarrow> string" where
  "extract_text_body (Multi c d f ps) =
     (let parts = map part_text
                    (filter (\<lambda>part. ctype part = ''text/plain'' \<and> \<not> is_attachment part)
                       (walk (Multi c d f ps)))
      in py_strip (py_join NL parts))"
| "extract_text_body (Leaf c d f t n) = (if c = ''text/plain'' then t else [])"

text \<open>
  \<^verbatim>\<open>
  def list_attachments(msg, save=False, save_dir=Path("attachments")):
      out = []
      for part in msg.walk():
          disp = str(part.get("Content-Disposition", ""))
          if "attachment" in disp.lower():
              raw_name = part.get_filename()
              fname = decode_mime_header(raw_name) or "unnamed"
              data = part.get_payload(decode=True)
              size = len(data) if data else 0
              ctype = part.get_content_type()
              is_pdf = (ctype == "application/pdf") or fname.lower().endswith(".pdf")
              ...
              out.append((fname, size, is_pdf, data if save else None))
      return out
  \<close>
  The loop runs with \<open>save=False\<close> (\<open>SAVE_ATTACHMENTS\<close>), so nothing is written and the
  fourth component is always \<open>None\<close>; an entry is the triple of the other three.
\<close>

definition list_attachments :: "part \<Rightarrow> (string \<times> nat \<times> bool) list" where
  "list_attachments msg =
     map (\<lambda>part.
            (let fname = (if filename part = [] then ''unnamed'' else filename part);
                 size = part_size part;
                 is_pdf = (ctype part = ''application/pdf'' \<or> suffix ''.pdf'' (py_lower fname))
             in (fname, size, is_pdf)))
         (filter is_attachment (walk msg))"


section \<open>The body text, as the specification words it\<close>

text \<open>The test of the loop of \<open>extract_text_body\<close>: a plain-text part whose disposition
  does not mark it as an attachment.\<close>

definition plain_inline :: "part \<Rightarrow> bool" where
  "plain_inline p = (ctype p = ''text/plain'' \<and> \<not> is_attachment p)"

text \<open>
  The body text after the words of the specification, to be compared with
  \<open>extract_text_body\<close>: for a multi-part message the texts of the first-level parts that
  pass the test, in their order, joined by newlines and trimmed; for a single-part
  message its own text when it is plain text, and the empty text otherwise.
\<close>

fun first_level_text_body :: "part \<Rightarrow> string" where
  "first_level_text_body (Multi c d f ps) =
     py_strip (py_join NL (map part_text (filter plain_inline ps)))"
| "first_level_text_body (Leaf c d f t n) = (if c = ''text/plain'' then t else [])"

text \<open>The texts that the parts of a message contribute, by recursion over the tree: the
  part's own text when it passes the test (the empty text for a container), then the
  texts of its parts in turn.\<close>

fun plain_texts :: "part \<Rightarrow> string list" where
  "plain_texts (Leaf c d f t n) = (if plain_inline (Leaf c d f t n) then [t] else [])"
| "plain_texts (Multi c d f ps) =
     (if plain_inline (Multi c d f ps) then [[]] else []) @ concat (map plain_texts ps)"

text \<open>A message whose text sits one level down: \<open>multipart/mixed\<close> holding a
  \<open>multipart/alternative\<close> (plain text and HTML) and a PDF attachment.\<close>

definition msg_nested :: part where
  "msg_nested = Multi ''multipart/mixed'' '''' ''''
     [Multi ''multipart/alternative'' '''' ''''
        [Leaf ''text/plain'' '''' '''' ''Pay now'' 7,
         Leaf ''text/html'' '''' '''' ''<p>Pay now</p>'' 14],
      Leaf ''application/pdf'' ''attachment; filename=invoice.pdf'' ''invoice.pdf'' '''' 1000]"


section \<open>The change of a CombinedText, as the specification words it\<close>

text \<open>
  ``Changing only the body text changes only the first-line component of the output,
  nothing else'': of the two lists of components, all but the first are the same.
\<close>

definition spec_differ_only_in_first_line :: "string list \<Rightarrow> string list \<Rightarrow> bool" where
  "spec_differ_only_in_first_line cs ds \<longleftrightarrow> length cs = length ds \<and> tl cs = tl ds"


section \<open>The invoice gate (main.py)\<close>

text \<open>
  \<^verbatim>\<open>
  def looks_like_invoice(subject, body, attachments):
      text = f"{subject}\n{body}".lower()
      kw_hit = "invoice" in text  # minimal heuristic
      is_invoice = kw_hit
      reason = "keyword" if kw_hit else "no strong signal"
      return is_invoice, reason
  \<close>
\<close>

definition looks_like_invoice :: "string \<Rightarrow> string \<Rightarrow> 'a list \<Rightarrow> bool \<times> string" where
  "looks_like_invoice subject body attachments =
     (let text = py_lower (subject @ NL @ body);
          kw_hit = py_in ''invoice'' text;
          is_invoice = kw_hit;
          reason = (if kw_hit then ''keyword'' else ''no strong signal'')
      in (is_invoice, reason))"



section \<open>The ledger and the processing loop (main.py)\<close>

text \<open>
  A row of the ledger, by the columns of the worksheet (\<open>ensure_workbook\<close>); the time stamp
  \<open>SavedAt\<close> that \<open>append_invoice_row\<close> puts first is left out.  An empty cell (\<open>""\<close>) of a
  numeric column is \<open>None\<close>.
  \<^verbatim>\<open>
      ws.append([
          saved_at, from_, subject, date_str, has_pdf, ", ".join(attach_names), reason, message_id,
          from_domain, reply_domain, attachment_types, amount_guess,
          ml_risk_score, ml_top_tokens
      ])
  \<close>
\<close>

record ledger_row =
  From :: string
  Subject :: string
  Date :: string
  HasPDF :: bool
  AttachmentNames :: string
  Reason :: string
  MessageID :: string
  FromDomain :: string
  ReplyDomain :: string
  AttachmentTypes :: string
  AmountGuess :: "real option"
  MLRiskScore :: "int option"
  MLTopTokens :: string

text \<open>A fetched message: its headers after \<open>decode_mime_header\<close> (empty when absent) and
  its tree of parts.\<close>

record message =
  hdr_subject :: string
  hdr_from :: string
  hdr_date :: string
  hdr_reply_to :: string
  hdr_message_id :: string
  root :: part

text \<open>
  What the loop reads from outside: the address parser of the standard library, the result
  of \<open>_load()\<close>, the answer of \<open>imap.search\<close> (status and identifiers, oldest first) and the
  answer of \<open>imap.fetch\<close> for an identifier (status and message).
\<close>

record 'id env =
  parseaddr :: "string \<Rightarrow> string \<times> string"
  ml_load :: "exn + fraud_model"
  search :: "string \<times> 'id list"
  fetch :: "'id \<Rightarrow> string \<times> message"

text \<open>What the loop changes: the rows of the workbook, in the order of their appending, and
  the counter \<open>count\<close>.\<close>

record state =
  ledger :: "ledger_row list"
  count :: nat

text \<open>\<open>xs[k:]\<close> for an integer \<open>k\<close>: a negative \<open>k\<close> counts from the end, and the start is
  clipped to the list.\<close>

definition py_slice_from :: "int \<Rightarrow> 'a list \<Rightarrow> 'a list" where
  "py_slice_from k xs =
     (let n = int (length xs); start = (if k < 0 then max (n + k) 0 else min k n)
      in drop (nat start) xs)"

text \<open>
  The scoring call of the loop and its handler: the two cells \<open>ML Risk Score\<close> and
  \<open>ML Top Tokens\<close> of the row.
  \<^verbatim>\<open>
          try:
              ml = predict_email_risk(
                  subject=subject, body=body, from_domain=from_domain,
                  reply_domain=reply_domain, attachment_types=attachment_types,
                  amount=amount_value
              )
              ml_score  = ml.get("risk_score", "")
              ml_tokens = ", ".join(ml.get("top_tokens", []))
          except Exception:
              ml_score, ml_tokens = "", ""
  \<close>
\<close>

definition try_predict ::
  "exn + fraud_model \<Rightarrow> string \<Rightarrow> string \<Rightarrow> string \<Rightarrow> string \<Rightarrow> string \<Rightarrow> real option \<Rightarrow>
   int option \<times> string" where
  "try_predict ld subject body from_domain reply_domain attachment_types amount_value =
     (case predict_email_risk ld (Some subject) (Some body) (Some from_domain)
             (Some reply_domain) (Some attachment_types)
             (case amount_value of None \<Rightarrow> PyNone | Some v \<Rightarrow> PyFloat (Fin v)) of
        Inr (risk_score, top_tokens) \<Rightarrow> (Some risk_score, py_join '', '' top_tokens)
      | Inl ex \<Rightarrow> (None, []))"

text \<open>
  The body of the loop of \<open>process_all\<close> for one identifier (lines 184 to 250).  The
  keep-alive and the printing change neither the ledger nor the counter.
  \<^verbatim>\<open>
      status, msg_data = imap.fetch(msg_id, "(RFC822)")
      if status != "OK":
          print("Fetch failed for", msg_id)
          continue
      ...
      is_inv, reason = looks_like_invoice(subject, body, attachments)
      has_pdf = any(is_pdf for _, _, is_pdf, _ in attachments)
      attach_names = [a[0] for a in attachments] if attachments else []
      ...
      if is_inv:
          from_domain    = domain_from_header(from_)
          reply_domain   = domain_from_header(decode_mime_header(msg.get("Reply-To")))
          attachment_types = attachment_types_from_list(attach_names)
          amount_value   = extract_amount_guess(f"{subject}\n{body}")
          try: ... except Exception: ...
          append_invoice_row(EXCEL_PATH, ...)
          count += 1
  \<close>
\<close>

definition process_message :: "'id env \<Rightarrow> state \<Rightarrow> 'id \<Rightarrow> state" where
  "process_message e st msg_id =
     (let (status, msg) = fetch e msg_id in
      if status \<noteq> ''OK'' then st
      else
        (let subject = hdr_subject msg;
             from_hdr = hdr_from msg;
             date_h = hdr_date msg;
             body = extract_text_body (root msg);
             attachments = list_attachments (root msg);
             (is_inv, reason) = looks_like_invoice subject body attachments;
             has_pdf = (\<exists>a \<in> set attachments. snd (snd a));
             attach_names = map fst attachments;
             message_id = hdr_message_id msg
         in if is_inv then
              (let from_domain = domain_from_header (parseaddr e) from_hdr;
                   reply_domain = domain_from_header (parseaddr e) (hdr_reply_to msg);
                   attachment_types = attachment_types_from_list attach_names;
                   amount_value = extract_amount_guess (subject @ NL @ body);
                   (ml_score, ml_tokens) =
                     try_predict (ml_load e) subject body from_domain reply_domain
                       attachment_types amount_value
               in st\<lparr>ledger := ledger st @
                       [\<lparr>From = from_hdr, Subject = subject, Date = date_h,
                         HasPDF = has_pdf, AttachmentNames = py_join '', '' attach_names,
                         Reason = reason, MessageID = message_id,
                         FromDomain = from_domain, ReplyDomain = reply_domain,
                         AttachmentTypes = attachment_types, AmountGuess = amount_value,
                         MLRiskScore = ml_score, MLTopTokens = ml_tokens\<rparr>],
                      count := count st + 1\<rparr>)
            else st))"

text \<open>The identifiers that the loop visits, in the order of the visits:
  \<^verbatim>\<open>
      msg_ids = data[0].split()
      # Scan the most recent N
      msg_ids = msg_ids[-min(limit, 200):]
      for i, msg_id in enumerate(reversed(msg_ids), 1):
  \<close>
\<close>

definition batch :: "int \<Rightarrow> 'id list \<Rightarrow> 'id list" where
  "batch limit msg_ids = rev (py_slice_from (- min limit 200) msg_ids)"

text \<open>The loop over a list of identifiers, one after the other.\<close>

fun process_ids :: "'id env \<Rightarrow> state \<Rightarrow> 'id list \<Rightarrow> state" where
  "process_ids e st [] = st"
| "process_ids e st (msg_id # rest) = process_ids e (process_message e st msg_id) rest"

text \<open>
  \<^verbatim>\<open>
  def process_all(limit: int = 200):
      ...
      status, data = imap.search(None, SEARCH_CRITERIA)
      if status != "OK":
          print("Search failed:", status)
          return
      ...
  \<close>
  The state at the start holds the rows of the workbook as it is found, and the counter
  at \<open>0\<close>.
\<close>

definition process_all :: "'id env \<Rightarrow> int \<Rightarrow> state \<Rightarrow> state" where
  "process_all e limit st =
     (let (status, msg_ids) = search e in
      if status \<noteq> ''OK'' then st
      else process_ids e st (batch limit msg_ids))"


text \<open>The rows that the loop appends for one identifier: none or one.\<close>

definition new_rows :: "'id env \<Rightarrow> 'id \<Rightarrow> ledger_row list" where
  "new_rows e msg_id = ledger (process_message e \<lparr>ledger = [], count = 0\<rparr> msg_id)"


section \<open>Scenario A of the specification\<close>

text \<open>
  The message of scenario A: subject \<open>Invoice #1234 due\<close>, body
  \<open>Please pay $250.00 to acme.com\<close>, sender \<open>Bill <bill@acme.com>\<close>, no reply-to and one
  attachment \<open>invoice.pdf\<close>.  \<open>parseaddr_A\<close> is \<open>email.utils.parseaddr\<close> on the two header
  values of that message, and \<open>env_A\<close> a mailbox that lists the given
  identifiers and holds the message under each of them, with the result of \<open>_load()\<close>
  left open.
\<close>

definition msg_A :: message where
  "msg_A = \<lparr>hdr_subject = ''Invoice #1234 due'', hdr_from = ''Bill <bill@acme.com>'',
     hdr_date = '''', hdr_reply_to = '''', hdr_message_id = '''',
     root = Multi ''multipart/mixed'' '''' ''''
       [Leaf ''text/plain'' '''' '''' ''Please pay $250.00 to acme.com'' 30,
        Leaf ''application/pdf'' ''attachment; filename=invoice.pdf'' ''invoice.pdf'' ''''
          1000]\<rparr>"

definition parseaddr_A :: "string \<Rightarrow> string \<times> string" where
  "parseaddr_A h =
     (if h = ''Bill <bill@acme.com>'' then (''Bill'', ''bill@acme.com'') else ('''', ''''))"

definition env_A :: "(exn + fraud_model) \<Rightarrow> nat list \<Rightarrow> nat env" where
  "env_A ld ids = \<lparr>parseaddr = parseaddr_A, ml_load = ld, search = (''OK'', ids),
                   fetch = (\<lambda>i. (''OK'', msg_A))\<rparr>"


section \<open>A model for the scoring examples\<close>

text \<open>
  A vectoriser with the vocabulary \<open>invoice\<close>, \<open>urgent\<close>, \<open>wire\<close>, \<open>acme\<close>, all four found in
  the text, and a classifier with the weights \<open>0.5\<close>, \<open>2\<close>, \<open>-1\<close>, \<open>0\<close> that returns the given
  probability.  \<open>double_0_005\<close> is the double nearest to \<open>0.005\<close>, the value of the Python
  literal \<open>0.005\<close>; it is a little above \<open>0.005\<close>.
\<close>

definition model_W :: "real \<Rightarrow> fraud_model" where
  "model_W p = \<lparr>vec_transform = (\<lambda>text. Inr [0, 1, 2, 3]),
                clf_predict_proba = (\<lambda>X. Inr p),
                vec_get_feature_names_out = Inr [''invoice'', ''urgent'', ''wire'', ''acme''],
                clf_coef = Inr [1 / 2, 2, - 1, 0]\<rparr>"

definition double_0_005 :: real where
  "double_0_005 = 5764607523034235 / 2 ^ 60"


section \<open>Facts about strings\<close>

lemma py_in_sublist: "py_in needle hay = sublist needle hay"
  by (induction hay) (auto simp: sublist_Cons_right)

lemma py_in_iff: "py_in needle hay \<longleftrightarrow> (\<exists>pre post. hay = pre @ needle @ post)"
  by (simp add: py_in_sublist sublist_def)

lemma py_lower_append: "py_lower (a @ b) = py_lower a @ py_lower b"
  by (simp add: py_lower_def)

lemma py_lower_NL: "py_lower NL = NL"
  by (simp add: py_lower_def NL_def lower_char_def)

text \<open>A needle without the separator character that occurs in \<open>a @ [c] @ b\<close> occurs in
  \<open>a\<close> or in \<open>b\<close>.\<close>

lemma sublist_sep:
  assumes "c \<notin> set needle"
  shows "sublist needle (a @ c # b) \<longleftrightarrow> sublist needle a \<or> sublist needle b"
proof
  assume "sublist needle (a @ c # b)"
  then obtain pre post where eq: "a @ c # b = pre @ needle @ post"
    by (auto simp: sublist_def)
  show "sublist needle a \<or> sublist needle b"
  proof (cases "length pre + length needle \<le> length a")
    case True
    from eq have "take (length pre + length needle) (a @ c # b) = pre @ needle"
      by simp
    with True have "take (length pre + length needle) a = pre @ needle"
      by simp
    then have "a = pre @ needle @ drop (length pre + length needle) a"
      by (metis append.assoc append_take_drop_id)
    then show ?thesis
      by (auto simp: sublist_def)
  next
    case False
    show ?thesis
    proof (cases "length a < length pre")
      case True
      from eq have "drop (Suc (length a)) (a @ c # b) = drop (Suc (length a)) (pre @ needle @ post)"
        by simp
      with True have "b = drop (Suc (length a)) pre @ needle @ post"
        by simp
      then show ?thesis
        by (auto simp: sublist_def)
    next
      case inner: False
      with False have lt: "length a - length pre < length needle" and le: "length pre \<le> length a"
        by auto
      from eq have "(a @ c # b) ! length a = (pre @ needle @ post) ! length a"
        by simp
      with lt le have "c = needle ! (length a - length pre)"
        by (simp add: nth_append)
      with lt have "c \<in> set needle"
        by simp
      with assms show ?thesis
        by simp
    qed
  qed
next
  assume "sublist needle a \<or> sublist needle b"
  then show "sublist needle (a @ c # b)"
  proof
    assume "sublist needle a"
    then obtain pre post where "a = pre @ needle @ post"
      by (auto simp: sublist_def)
    then have "a @ c # b = pre @ needle @ (post @ c # b)"
      by simp
    then show ?thesis
      unfolding sublist_def by blast
  next
    assume "sublist needle b"
    then obtain pre post where "b = pre @ needle @ post"
      by (auto simp: sublist_def)
    then have "a @ c # b = (a @ c # pre) @ needle @ post"
      by simp
    then show ?thesis
      unfolding sublist_def by blast
  qed
qed


section \<open>Facts about whitespace\<close>

lemma is_space_sp [simp]: "is_space CHR '' ''" by (simp add: is_space_def)
lemma is_space_nl [simp]: "is_space CHR 0x0A" by (simp add: is_space_def)

lemma blank_simps [simp]: "blank []" "blank (c # cs) = (is_space c \<and> blank cs)"
  "blank (a @ b) = (blank a \<and> blank b)" "blank (rev a) = blank a"
  by (auto simp: blank_def list_all_iff)

lemma lstrip_blank: "blank a \<Longrightarrow> py_lstrip (a @ b) = py_lstrip b"
  by (simp add: py_lstrip_def blank_def list_all_iff)

lemma lstrip_nonblank: "\<not> blank a \<Longrightarrow> py_lstrip (a @ b) = py_lstrip a @ b"
  by (auto simp add: py_lstrip_def blank_def list_all_iff)

lemma rstrip_blank: "blank b \<Longrightarrow> py_rstrip (a @ b) = py_rstrip a"
  using lstrip_blank [of "rev b" "rev a"] by (simp add: py_rstrip_def py_lstrip_def)

lemma rstrip_nonblank: "\<not> blank b \<Longrightarrow> py_rstrip (a @ b) = a @ py_rstrip b"
  using lstrip_nonblank [of "rev b" "rev a"] by (simp add: py_rstrip_def py_lstrip_def)

lemma lstrip_eq_Nil [simp]: "py_lstrip a = [] \<longleftrightarrow> blank a"
  by (auto simp: py_lstrip_def blank_def list_all_iff)

lemma rstrip_eq_Nil [simp]: "py_rstrip a = [] \<longleftrightarrow> blank a"
  by (auto simp: py_rstrip_def blank_def list_all_iff)

lemma blank_lstrip [simp]: "blank (py_lstrip a) = blank a"
  by (induction a) (auto simp: py_lstrip_def)

lemma blank_rstrip [simp]: "blank (py_rstrip a) = blank a"
  using blank_lstrip [of "rev a"] by (simp add: py_rstrip_def py_lstrip_def)

lemma blank_sub_ws [simp]: "blank (sub_ws b x) = blank x"
  by (induction x arbitrary: b) auto

lemma sub_ws_append:
  "sub_ws b (x @ y) = sub_ws b x @ sub_ws (if x = [] then b else is_space (last x)) y"
  by (induction x arbitrary: b) auto

text \<open>Inside a run of whitespace the leading whitespace of the rest is dropped.\<close>
lemma sub_ws_True: "sub_ws True y = py_lstrip (sub_ws False y)"
proof (induction y)
  case Nil show ?case by (simp add: py_lstrip_def)
next
  case (Cons c cs)
  show ?case
  proof (cases "is_space c")
    case True
    then show ?thesis using Cons by (simp add: py_lstrip_def)
  next
    case False
    then show ?thesis by (simp add: py_lstrip_def)
  qed
qed

lemma lstrip_idem [simp]: "py_lstrip (py_lstrip a) = py_lstrip a"
  by (induction a) (auto simp: py_lstrip_def)

lemma lstrip_split: "\<exists>p. a = p @ py_lstrip a \<and> blank p"
proof -
  have "a = takeWhile is_space a @ py_lstrip a" by (simp add: py_lstrip_def)
  moreover have "blank (takeWhile is_space a)"
    by (auto simp: blank_def list_all_iff dest: set_takeWhileD)
  ultimately show ?thesis by blast
qed

lemma lstrip_fix: "a = [] \<or> \<not> is_space (hd a) \<Longrightarrow> py_lstrip a = a"
  by (cases a) (auto simp: py_lstrip_def)

lemma lstrip_hd: "py_lstrip a = [] \<or> \<not> is_space (hd (py_lstrip a))"
  unfolding py_lstrip_def by (metis hd_dropWhile)

lemma rstrip_hd:
  assumes "\<not> blank a" "\<not> is_space (hd a)"
  shows "hd (py_rstrip a) = hd a"
proof (cases a)
  case Nil
  with assms show ?thesis by simp
next
  case (Cons c r)
  with assms have c: "\<not> is_space c" by simp
  show ?thesis
  proof (cases "blank r")
    case True
    then have "py_rstrip ([c] @ r) = py_rstrip [c]" by (rule rstrip_blank)
    with c Cons show ?thesis by (simp add: py_rstrip_def)
  next
    case False
    then have "py_rstrip ([c] @ r) = [c] @ py_rstrip r" by (rule rstrip_nonblank)
    with Cons show ?thesis by simp
  qed
qed

lemma sub_ws_blank_True: "blank s \<Longrightarrow> sub_ws True s = []"
  by (induction s) auto

lemma sub_ws_blank_False: "blank s \<Longrightarrow> s \<noteq> [] \<Longrightarrow> sub_ws False s = '' ''"
  by (cases s) (auto simp: sub_ws_blank_True)

lemma strip_commute: "py_rstrip (py_lstrip a) = py_lstrip (py_rstrip a)"
proof (cases "blank a")
  case True
  then have l: "py_rstrip (py_lstrip a) = []" by simp
  from True have r: "py_lstrip (py_rstrip a) = []" by simp
  show ?thesis unfolding l r ..
next
  case False
  obtain p where a: "a = p @ py_lstrip a" "blank p" using lstrip_split by blast
  let ?q = "py_lstrip a"
  from False have nq: "\<not> blank ?q" by simp
  have "py_rstrip a = p @ py_rstrip ?q"
    using rstrip_nonblank [OF nq, of p] a(1) by simp
  then have "py_lstrip (py_rstrip a) = py_lstrip (py_rstrip ?q)"
    using a(2) by (simp add: lstrip_blank)
  moreover have "py_lstrip (py_rstrip ?q) = py_rstrip ?q"
  proof (rule lstrip_fix)
    have "\<not> is_space (hd ?q)" using lstrip_hd [of a] nq by auto
    then have "\<not> is_space (hd (py_rstrip ?q))" using rstrip_hd [of ?q] nq by simp
    then show "py_rstrip ?q = [] \<or> \<not> is_space (hd (py_rstrip ?q))" by simp
  qed
  ultimately show ?thesis by simp
qed

lemma normalise_eq_Nil [simp]: "normalise x = [] \<longleftrightarrow> blank x"
  by (simp add: normalise_def py_strip_def)

text \<open>A text that is not blank, with a newline behind it.\<close>
lemma sub_ws_NL:
  "\<not> blank x \<Longrightarrow> sub_ws b (x @ NL) = py_rstrip (sub_ws b x) @ '' ''"
proof (induction x arbitrary: b)
  case Nil then show ?case by simp
next
  case (Cons c cs)
  show ?case
  proof (cases "blank cs")
    case True
    with Cons.prems have c: "\<not> is_space c" by simp
    from True have "sub_ws False (cs @ NL) = '' ''"
      by (intro sub_ws_blank_False) (simp_all add: NL_def)
    moreover have "py_rstrip ([c] @ sub_ws False cs) = py_rstrip [c]"
      by (rule rstrip_blank) (simp add: True)
    ultimately show ?thesis using c by (simp add: py_rstrip_def)
  next
    case False
    have "py_rstrip ([x] @ sub_ws b' cs) = [x] @ py_rstrip (sub_ws b' cs)" for x b'
      by (rule rstrip_nonblank) (simp add: False)
    then show ?thesis using Cons.IH [OF False] by simp
  qed
qed

lemma normalise_NL:
  assumes "\<not> blank y"
  shows "normalise (x @ NL @ y) = segment x @ normalise y"
proof -
  have 1: "sub_ws False (x @ NL @ y) = sub_ws False (x @ NL) @ sub_ws True y"
    using sub_ws_append [of False "x @ NL" y] by (simp add: NL_def)
  have ny: "\<not> blank (sub_ws True y)" using assms by simp
  have 2: "py_rstrip (sub_ws False (x @ NL) @ sub_ws True y)
             = sub_ws False (x @ NL) @ py_rstrip (sub_ws True y)"
    by (rule rstrip_nonblank [OF ny])
  have 3: "py_rstrip (sub_ws True y) = normalise y"
    by (simp add: sub_ws_True strip_commute normalise_def py_strip_def)
  show ?thesis
  proof (cases "blank x")
    case True
    then have "blank (sub_ws False (x @ NL))" by (simp add: NL_def)
    then have "py_lstrip (sub_ws False (x @ NL) @ normalise y) = py_lstrip (normalise y)"
      by (rule lstrip_blank)
    moreover have "py_lstrip (normalise y) = normalise y"
      by (simp add: normalise_def py_strip_def)
    ultimately show ?thesis
      using True by (simp add: normalise_def [of "x @ NL @ y"] py_strip_def 1 2 3 segment_def)
  next
    case False
    then have "\<not> blank (sub_ws False (x @ NL))" by simp
    then have "py_lstrip (sub_ws False (x @ NL) @ normalise y)
                 = py_lstrip (sub_ws False (x @ NL)) @ normalise y"
      by (rule lstrip_nonblank)
    moreover have "py_lstrip (sub_ws False (x @ NL)) = normalise x @ '' ''"
    proof -
      have nb: "\<not> blank (py_rstrip (sub_ws False x))" using False by simp
      show ?thesis
        using lstrip_nonblank [OF nb, of "'' ''"] False
        by (simp add: sub_ws_NL normalise_def py_strip_def)
    qed
    ultimately show ?thesis
      using False by (simp add: normalise_def [of "x @ NL @ y"] py_strip_def 1 2 3 segment_def)
  qed
qed


lemma amt_token_cases:
  "ml_amt_token v \<in> {''AMOUNT_BIN:UNK'', ''AMOUNT_BIN:LOW'', ''AMOUNT_BIN:MED'', ''AMOUNT_BIN:HIGH''}"
  by (simp add: ml_amt_token_def split: option.split)

lemma amt_token_normal: "normalise (ml_amt_token v) = ml_amt_token v \<and> \<not> blank (ml_amt_token v)"
proof -
  have "normalise t = t \<and> \<not> blank t"
    if "t \<in> {''AMOUNT_BIN:UNK'', ''AMOUNT_BIN:LOW'', ''AMOUNT_BIN:MED'', ''AMOUNT_BIN:HIGH''}" for t
    using that by (auto simp: normalise_def py_strip_def py_lstrip_def py_rstrip_def is_space_def)
  then show ?thesis using amt_token_cases by blast
qed


section \<open>The gate decides on the keyword alone\<close>

text \<open>
  C8.  For every subject and body the gate lower-cases the text built from subject and
  body (the two joined by a newline) and tests whether the literal token \<open>invoice\<close> occurs
  in it: the result is \<open>(True, "keyword")\<close> exactly when it occurs and
  \<open>(False, "no strong signal")\<close> otherwise.  As the token holds no newline, it occurs in
  the joined text exactly when it occurs in the lower-cased subject or in the lower-cased
  body.  Lower-casing works character by character: it sends each of the 26 capital
  letters to its small letter and leaves every other character as it is, so that
  \<open>INVOICE\<close>, \<open>Invoice\<close> and \<open>invoice\<close> are all hits.
\<close>

theorem looks_like_invoice_keyword:
  "looks_like_invoice subject body attachments =
     (if (\<exists>pre post. py_lower (subject @ NL @ body) = pre @ ''invoice'' @ post)
      then (True, ''keyword'') else (False, ''no strong signal''))
   \<and> ((\<exists>pre post. py_lower (subject @ NL @ body) = pre @ ''invoice'' @ post) \<longleftrightarrow>
        (\<exists>pre post. py_lower subject = pre @ ''invoice'' @ post) \<or>
        (\<exists>pre post. py_lower body = pre @ ''invoice'' @ post))
   \<and> py_lower s = map lower_char s
   \<and> py_lower ''ABCDEFGHIJKLMNOPQRSTUVWXYZ'' = ''abcdefghijklmnopqrstuvwxyz''
   \<and> (\<forall>c. c \<notin> set ''ABCDEFGHIJKLMNOPQRSTUVWXYZ'' \<longrightarrow> lower_char c = c)"
proof -
  have "sublist ''invoice'' (py_lower subject @ CHR 0x0A # py_lower body) \<longleftrightarrow>
          sublist ''invoice'' (py_lower subject) \<or> sublist ''invoice'' (py_lower body)"
    by (rule sublist_sep) simp
  then have split: "(\<exists>pre post. py_lower (subject @ NL @ body) = pre @ ''invoice'' @ post) \<longleftrightarrow>
        (\<exists>pre post. py_lower subject = pre @ ''invoice'' @ post) \<or>
        (\<exists>pre post. py_lower body = pre @ ''invoice'' @ post)"
    unfolding sublist_def py_lower_append py_lower_NL by (simp add: NL_def)
  have gate: "looks_like_invoice subject body attachments =
     (if (\<exists>pre post. py_lower (subject @ NL @ body) = pre @ ''invoice'' @ post)
      then (True, ''keyword'') else (False, ''no strong signal''))"
    unfolding looks_like_invoice_def Let_def py_in_iff by simp
  have up: "py_lower ''ABCDEFGHIJKLMNOPQRSTUVWXYZ'' = ''abcdefghijklmnopqrstuvwxyz''"
    by (simp add: py_lower_def lower_char_def)
  have other: "lower_char c = c" if "c \<notin> set ''ABCDEFGHIJKLMNOPQRSTUVWXYZ''" for c
    using that by (simp add: lower_char_def)
  from split gate up other show ?thesis
    unfolding py_lower_def by blast
qed

text \<open>The gate on a subject in capital letters, and on a message without the token.\<close>

theorem looks_like_invoice_keyword_witness:
  "CHR ''7'' \<notin> set ''ABCDEFGHIJKLMNOPQRSTUVWXYZ'' \<and> lower_char CHR ''7'' = CHR ''7'' \<and>
   py_lower ''INVOICE 77'' = ''invoice 77'' \<and>
   looks_like_invoice ''INVOICE 77'' ''Pay up'' ([] :: nat list) = (True, ''keyword'') \<and>
   looks_like_invoice ''Team lunch Friday'' ''See you at noon'' ([] :: nat list)
     = (False, ''no strong signal'')"
proof -
  note hit = looks_like_invoice_keyword [of "''INVOICE 77''" "''Pay up''" "[] :: nat list"
      "''INVOICE 77''"]
  note miss = looks_like_invoice_keyword [of "''Team lunch Friday''" "''See you at noon''"
      "[] :: nat list" "[]"]
  have seven: "CHR ''7'' \<notin> set ''ABCDEFGHIJKLMNOPQRSTUVWXYZ''" by simp
  with hit have l7: "lower_char CHR ''7'' = CHR ''7''" by blast
  have sp: "CHR '' '' \<notin> set ''ABCDEFGHIJKLMNOPQRSTUVWXYZ''" by simp
  with hit have lsp: "lower_char CHR '' '' = CHR '' ''" by blast
  from hit have up: "py_lower ''ABCDEFGHIJKLMNOPQRSTUVWXYZ'' = ''abcdefghijklmnopqrstuvwxyz''"
    by blast
  from hit have m: "py_lower ''INVOICE 77'' = map lower_char ''INVOICE 77''" by blast
  from up have letters: "lower_char CHR ''I'' = CHR ''i''" "lower_char CHR ''N'' = CHR ''n''"
    "lower_char CHR ''V'' = CHR ''v''" "lower_char CHR ''O'' = CHR ''o''"
    "lower_char CHR ''C'' = CHR ''c''" "lower_char CHR ''E'' = CHR ''e''"
    by (simp_all add: py_lower_def)
  have low: "py_lower ''INVOICE 77'' = ''invoice 77''"
    unfolding m by (simp add: letters l7 lsp)
  have "py_lower (''INVOICE 77'' @ NL @ ''Pay up'') = [] @ ''invoice'' @ '' 77'' @ NL @ py_lower ''Pay up''"
    unfolding py_lower_append py_lower_NL low by simp
  then have "\<exists>pre post. py_lower (''INVOICE 77'' @ NL @ ''Pay up'') = pre @ ''invoice'' @ post"
    by blast
  with hit have g1: "looks_like_invoice ''INVOICE 77'' ''Pay up'' ([] :: nat list) = (True, ''keyword'')"
    by simp
  have "\<not> py_in ''invoice'' (py_lower (''Team lunch Friday'' @ NL @ ''See you at noon''))"
    by (simp add: py_lower_def lower_char_def NL_def)
  then have "\<not> (\<exists>pre post. py_lower (''Team lunch Friday'' @ NL @ ''See you at noon'')
       = pre @ ''invoice'' @ post)"
    unfolding py_in_iff .
  with miss have g2: "looks_like_invoice ''Team lunch Friday'' ''See you at noon'' ([] :: nat list)
     = (False, ''no strong signal'')"
    by simp
  from seven l7 low g1 g2 show ?thesis by blast
qed

text \<open>
  C10.  The decision and the reason of the gate do not depend on the attachments
  argument: two calls with the same subject and body and any two attachment lists return
  the same pair.
\<close>

theorem looks_like_invoice_ignores_attachments:
  "looks_like_invoice subject body a1 = looks_like_invoice subject body a2"
  by (simp add: looks_like_invoice_def)


section \<open>The components of a CombinedText\<close>

text \<open>
  The text that the codec at scoring time returns is the concatenation of six components
  in a fixed order: the components of subject, body, \<open>FROM:\<close> with the sender domain,
  \<open>REPLY:\<close> with the reply domain, \<open>ATTACH:\<close> with the attachment types, and the amount
  token.  Each component is built from its own field alone.
\<close>

lemma ml_combine_components:
  "ml_combine s b fd rd att amt =
     segment (or_empty s) @ segment (or_empty b) @
     segment (''FROM:'' @ py_lower (or_empty fd)) @
     segment (''REPLY:'' @ py_lower (or_empty rd)) @
     segment (''ATTACH:'' @ py_lower (or_empty att)) @
     ml_amt_token amt"
proof -
  let ?t = "ml_amt_token amt"
  have nb: "\<not> blank ?t" and nt: "normalise ?t = ?t"
    using amt_token_normal by simp_all
  have step: "normalise (x @ NL @ y) = segment x @ normalise y" if "\<not> blank y" for x y
    using that by (rule normalise_NL)
  have "ml_combine s b fd rd att amt =
          normalise (or_empty s @ NL @ or_empty b @ NL @ (''FROM:'' @ py_lower (or_empty fd)) @ NL @
                     (''REPLY:'' @ py_lower (or_empty rd)) @ NL @
                     (''ATTACH:'' @ py_lower (or_empty att)) @ NL @ ?t)"
    by (simp add: ml_combine_def normalise_def)
  also have "\<dots> = segment (or_empty s) @ segment (or_empty b) @
     segment (''FROM:'' @ py_lower (or_empty fd)) @
     segment (''REPLY:'' @ py_lower (or_empty rd)) @
     segment (''ATTACH:'' @ py_lower (or_empty att)) @ ?t"
    using nb by (simp only: step blank_simps nt simp_thms)
  finally show ?thesis .
qed

text \<open>
  C9, as the claim states it, fails on the component that changes.  The first line of the
  text that the codec joins is the subject, and the body is the second.  Two inputs with
  the subject \<open>Hi\<close> and the bodies \<open>x\<close> and \<open>y\<close> give \<open>Hi x FROM: ...\<close> and
  \<open>Hi y FROM: ...\<close>: the first component is the same in both and the second differs.
\<close>

theorem ml_combine_first_line_unchanged:
  "ml_combine (Some ''Hi'') (Some ''x'') None None None PyNone
     = ''Hi x FROM: REPLY: ATTACH: AMOUNT_BIN:UNK'' \<and>
   ml_combine (Some ''Hi'') (Some ''y'') None None None PyNone
     = ''Hi y FROM: REPLY: ATTACH: AMOUNT_BIN:UNK'' \<and>
   py_join NL [or_empty (Some ''Hi''), or_empty (Some ''x'')] = ''Hi'' @ NL @ ''x'' \<and>
   components (Some ''Hi'') (Some ''x'') None None None PyNone
     = [''Hi '', ''x '', ''FROM: '', ''REPLY: '', ''ATTACH: '', ''AMOUNT_BIN:UNK''] \<and>
   components (Some ''Hi'') (Some ''y'') None None None PyNone
     = [''Hi '', ''y '', ''FROM: '', ''REPLY: '', ''ATTACH: '', ''AMOUNT_BIN:UNK''] \<and>
   \<not> spec_differ_only_in_first_line
       (components (Some ''Hi'') (Some ''x'') None None None PyNone)
       (components (Some ''Hi'') (Some ''y'') None None None PyNone)"
proof -
  have c: "components (Some ''Hi'') (Some b) None None None PyNone
     = [''Hi '', segment b, ''FROM: '', ''REPLY: '', ''ATTACH: '', ''AMOUNT_BIN:UNK'']" for b
    by (simp add: components_def segment_def normalise_def py_strip_def py_lstrip_def
        py_rstrip_def is_space_def ml_amt_token_def py_lower_def)
  have sx: "segment ''x'' = ''x ''" and sy: "segment ''y'' = ''y ''"
    by (simp_all add: segment_def normalise_def py_strip_def py_lstrip_def
        py_rstrip_def is_space_def)
  have m: "ml_combine (Some ''Hi'') (Some b) None None None PyNone
     = concat (components (Some ''Hi'') (Some b) None None None PyNone)" for b
    by (simp add: ml_combine_components components_def)
  show ?thesis
    unfolding m c sx sy by (simp add: spec_differ_only_in_first_line_def)
qed

text \<open>
  C9, amended.  The codec at scoring time is a function of its six arguments and reads
  nothing else, so two calls on the same field values return the same text.  The text is
  the concatenation of six components.  Two inputs that differ only in the body text
  give two lists of components that differ only in the second component, that of the
  body (the free text behind the subject and in front of the \<open>FROM:\<close> marker); every
  other component, that of the subject among them, is the same in both.  The two texts
  are the same exactly when the two components of the body are.
\<close>

theorem ml_combine_body_component:
  "ml_combine s b1 fd rd att amt = concat (components s b1 fd rd att amt)
   \<and> ml_combine s b2 fd rd att amt = concat (components s b2 fd rd att amt)
   \<and> length (components s b1 fd rd att amt) = 6
   \<and> length (components s b2 fd rd att amt) = 6
   \<and> components s b1 fd rd att amt ! 1 = segment (or_empty b1)
   \<and> components s b2 fd rd att amt ! 1 = segment (or_empty b2)
   \<and> (\<forall>i < 6. i \<noteq> 1 \<longrightarrow> components s b1 fd rd att amt ! i = components s b2 fd rd att amt ! i)
   \<and> (ml_combine s b1 fd rd att amt = ml_combine s b2 fd rd att amt
        \<longleftrightarrow> segment (or_empty b1) = segment (or_empty b2))
   \<and> (s = s' \<and> b1 = b' \<and> fd = fd' \<and> rd = rd' \<and> att = att' \<and> amt = amt'
        \<longrightarrow> ml_combine s b1 fd rd att amt = ml_combine s' b' fd' rd' att' amt')"
proof -
  have m: "ml_combine s b fd rd att amt = concat (components s b fd rd att amt)" for b
    by (simp add: ml_combine_components components_def)
  have others: "components s b1 fd rd att amt ! i = components s b2 fd rd att amt ! i"
    if "i < 6" "i \<noteq> 1" for i
  proof -
    from that have "i = 0 \<or> i = 2 \<or> i = 3 \<or> i = 4 \<or> i = 5" by arith
    then show ?thesis by (auto simp: components_def)
  qed
  have eq: "ml_combine s b1 fd rd att amt = ml_combine s b2 fd rd att amt
        \<longleftrightarrow> segment (or_empty b1) = segment (or_empty b2)"
    unfolding m by (simp add: components_def)
  have l: "length (components s b fd rd att amt) = 6" 
    and b: "components s b fd rd att amt ! 1 = segment (or_empty b)" for b
    by (simp_all add: components_def)
  from m others eq l b show ?thesis by blast
qed

text \<open>The subject \<open>Hi\<close> with the bodies \<open>x\<close> and \<open>y\<close>.\<close>

theorem ml_combine_body_component_witness:
  "(0::nat) < 6 \<and> (0::nat) \<noteq> 1 \<and>
   components (Some ''Hi'') (Some ''x'') None None None PyNone ! 0 = ''Hi '' \<and>
   components (Some ''Hi'') (Some ''y'') None None None PyNone ! 0 = ''Hi '' \<and>
   components (Some ''Hi'') (Some ''x'') None None None PyNone ! 1 = ''x '' \<and>
   components (Some ''Hi'') (Some ''y'') None None None PyNone ! 1 = ''y '' \<and>
   ml_combine (Some ''Hi'') (Some ''x'') None None None PyNone
     \<noteq> ml_combine (Some ''Hi'') (Some ''y'') None None None PyNone \<and>
   ml_combine (Some ''Hi'') (Some ''x'') None None None PyNone
     = ml_combine (Some ''Hi'') (Some ''x'') None None None PyNone"
proof -
  note t = ml_combine_body_component [of "Some ''Hi''" "Some ''x''" None None None PyNone
      "Some ''y''" "Some ''Hi''" "Some ''x''" None None None PyNone]
  have sx: "segment ''x'' = ''x ''" and sy: "segment ''y'' = ''y ''"
    by (simp_all add: segment_def normalise_def py_strip_def py_lstrip_def
        py_rstrip_def is_space_def)
  have h: "components (Some ''Hi'') (Some ''x'') None None None PyNone ! 0 = ''Hi ''"
    by (simp add: components_def segment_def normalise_def py_strip_def py_lstrip_def
        py_rstrip_def is_space_def)
  have "(0::nat) < 6 \<and> (0::nat) \<noteq> 1" by simp
  with t have "components (Some ''Hi'') (Some ''x'') None None None PyNone ! 0
      = components (Some ''Hi'') (Some ''y'') None None None PyNone ! 0"
    by blast
  with h have h2: "components (Some ''Hi'') (Some ''y'') None None None PyNone ! 0 = ''Hi ''"
    by simp
  from t have "components (Some ''Hi'') (Some ''x'') None None None PyNone ! 1
      = segment (or_empty (Some ''x''))"
    and "components (Some ''Hi'') (Some ''y'') None None None PyNone ! 1
      = segment (or_empty (Some ''y''))"
    by blast+
  then have b1: "components (Some ''Hi'') (Some ''x'') None None None PyNone ! 1 = ''x ''"
    and b2: "components (Some ''Hi'') (Some ''y'') None None None PyNone ! 1 = ''y ''"
    by (simp_all add: sx sy)
  from t have "ml_combine (Some ''Hi'') (Some ''x'') None None None PyNone
       = ml_combine (Some ''Hi'') (Some ''y'') None None None PyNone
     \<longleftrightarrow> segment (or_empty (Some ''x'')) = segment (or_empty (Some ''y''))"
    by blast
  then have ne: "ml_combine (Some ''Hi'') (Some ''x'') None None None PyNone
     \<noteq> ml_combine (Some ''Hi'') (Some ''y'') None None None PyNone"
    by (simp add: sx sy)
  from t have same: "ml_combine (Some ''Hi'') (Some ''x'') None None None PyNone
     = ml_combine (Some ''Hi'') (Some ''x'') None None None PyNone"
    by blast
  from h h2 b1 b2 ne same show ?thesis by simp
qed


section \<open>The codec at scoring time and the codec at training time\<close>

lemma lower_char_idem: "lower_char (lower_char c) = lower_char c"
  by (simp add: lower_char_def)

lemma py_lower_idem: "py_lower (py_lower s) = py_lower s"
  by (simp add: py_lower_def lower_char_idem)

lemma py_lower_simps [simp]:
  "py_lower [] = []" "py_lower (c # s) = lower_char c # py_lower s"
  by (simp_all add: py_lower_def)

text \<open>Both modules quantise the amount alike.\<close>

lemma amt_token_eq: "ml_amt_token v = amt_token v"
  by (simp add: ml_amt_token_def amt_token_def)

lemma or_empty_map_lower: "or_empty (map_option py_lower x) = py_lower (or_empty x)"
  by (cases x) simp_all

lemma py_lower_join:
  "(\<forall>x \<in> set xs. py_lower x = x) \<Longrightarrow> py_lower (py_join '','' xs) = py_join '','' xs"
  by (induction "'',''" xs rule: py_join.induct) (simp_all add: py_lower_append lower_char_def)

text \<open>The domains and the attachment types that the loop passes to the codec hold no
  upper-case letter.\<close>

lemma domain_from_header_lower:
  "py_lower (domain_from_header pa h) = domain_from_header pa h"
  by (simp add: domain_from_header_def py_lower_idem split: prod.split)

lemma attachment_types_lower:
  "py_lower (attachment_types_from_list names) = attachment_types_from_list names"
proof -
  have "py_lower (py_join '','' (sort (remdups (map (\<lambda>ext. py_lower (g ext)) zs))))
          = py_join '','' (sort (remdups (map (\<lambda>ext. py_lower (g ext)) zs)))"
    for g and zs :: "string list"
    by (rule py_lower_join) (auto simp: py_lower_idem)
  then show ?thesis
    unfolding attachment_types_from_list_def Let_def by simp
qed

text \<open>
  C1, as the claim states it, fails: the codec at scoring time lower-cases the sender
  domain, the reply domain and the attachment types, and the combiner at training time
  takes them as they are.  For the sender domain \<open>ACME.com\<close> the first writes
  \<open>FROM:acme.com\<close> and the second \<open>FROM:ACME.com\<close>.
\<close>

theorem combine_differs_on_upper_case:
  "ml_combine (Some ''Hi'') (Some ''there'') (Some ''ACME.com'') None None PyNone
   \<noteq> combine \<lparr>col_subject = Some ''Hi'', col_body = Some ''there'',
               col_from_domain = Some ''ACME.com'', col_reply_domain = None,
               col_attachment_types = None, col_amount = PyNone\<rparr>"
  by (simp add: ml_combine_def combine_def ml_amt_token_def amt_token_def NL_def py_strip_def
      py_lstrip_def py_rstrip_def is_space_def lower_char_def)

text \<open>
  C1, amended.  For every tuple of field values the text of the codec at scoring time is
  the text that the combiner at training time builds for the tuple with sender domain,
  reply domain and attachment types lower-cased.  The two texts are identical whenever
  these three fields hold no upper-case letter; the fields that the processing loop
  builds with \<open>domain_from_header\<close> and \<open>attachment_types_from_list\<close> are of that kind.
\<close>

theorem combine_serving_training:
  "ml_combine s b fd rd att amt =
     combine \<lparr>col_subject = s, col_body = b, col_from_domain = map_option py_lower fd,
              col_reply_domain = map_option py_lower rd,
              col_attachment_types = map_option py_lower att, col_amount = amt\<rparr>
   \<and> (py_lower (or_empty fd) = or_empty fd \<and> py_lower (or_empty rd) = or_empty rd \<and>
      py_lower (or_empty att) = or_empty att \<longrightarrow>
      ml_combine s b fd rd att amt =
        combine \<lparr>col_subject = s, col_body = b, col_from_domain = fd, col_reply_domain = rd,
                 col_attachment_types = att, col_amount = amt\<rparr>)
   \<and> ml_combine s b (Some (domain_from_header pa h1)) (Some (domain_from_header pa h2))
        (Some (attachment_types_from_list names)) amt =
      combine \<lparr>col_subject = s, col_body = b,
               col_from_domain = Some (domain_from_header pa h1),
               col_reply_domain = Some (domain_from_header pa h2),
               col_attachment_types = Some (attachment_types_from_list names),
               col_amount = amt\<rparr>"
proof (intro conjI impI)
  show "ml_combine s b fd rd att amt =
     combine \<lparr>col_subject = s, col_body = b, col_from_domain = map_option py_lower fd,
              col_reply_domain = map_option py_lower rd,
              col_attachment_types = map_option py_lower att, col_amount = amt\<rparr>"
    by (simp add: ml_combine_def combine_def amt_token_eq or_empty_map_lower)
next
  assume "py_lower (or_empty fd) = or_empty fd \<and> py_lower (or_empty rd) = or_empty rd \<and>
      py_lower (or_empty att) = or_empty att"
  then show "ml_combine s b fd rd att amt =
        combine \<lparr>col_subject = s, col_body = b, col_from_domain = fd, col_reply_domain = rd,
                 col_attachment_types = att, col_amount = amt\<rparr>"
    by (simp add: ml_combine_def combine_def amt_token_eq)
next
  show "ml_combine s b (Some (domain_from_header pa h1)) (Some (domain_from_header pa h2))
        (Some (attachment_types_from_list names)) amt =
      combine \<lparr>col_subject = s, col_body = b,
               col_from_domain = Some (domain_from_header pa h1),
               col_reply_domain = Some (domain_from_header pa h2),
               col_attachment_types = Some (attachment_types_from_list names),
               col_amount = amt\<rparr>"
    by (simp add: ml_combine_def combine_def amt_token_eq domain_from_header_lower
        attachment_types_lower)
qed

theorem combine_serving_training_witness:
  "py_lower ''acme.com'' = ''acme.com'' \<and> py_lower '''' = '''' \<and> py_lower ''pdf'' = ''pdf'' \<and>
   ml_combine (Some ''Invoice #1234 due'') (Some ''Please pay'') (Some ''acme.com'') (Some '''')
       (Some ''pdf'') (PyFloat (Fin 1234)) =
     combine \<lparr>col_subject = Some ''Invoice #1234 due'', col_body = Some ''Please pay'',
              col_from_domain = Some ''acme.com'', col_reply_domain = Some '''',
              col_attachment_types = Some ''pdf'', col_amount = PyFloat (Fin 1234)\<rparr>"
proof -
  have low: "py_lower ''acme.com'' = ''acme.com''" "py_lower '''' = ''''" "py_lower ''pdf'' = ''pdf''"
    by (simp_all add: lower_char_def)
  from combine_serving_training [where s = "Some ''Invoice #1234 due''" and b = "Some ''Please pay''"
      and fd = "Some ''acme.com''" and rd = "Some ''''" and att = "Some ''pdf''"
      and amt = "PyFloat (Fin 1234)" and pa = "\<lambda>h. ('''', '''')" and ?h1.0 = "''''" and ?h2.0 = "''''" and names = "[]"]
  have "ml_combine (Some ''Invoice #1234 due'') (Some ''Please pay'') (Some ''acme.com'') (Some '''')
       (Some ''pdf'') (PyFloat (Fin 1234)) =
     combine \<lparr>col_subject = Some ''Invoice #1234 due'', col_body = Some ''Please pay'',
              col_from_domain = Some ''acme.com'', col_reply_domain = Some '''',
              col_attachment_types = Some ''pdf'', col_amount = PyFloat (Fin 1234)\<rparr>"
    using low by simp
  with low show ?thesis by simp
qed


section \<open>The amount token\<close>

text \<open>
  For a finite amount the token is \<open>LOW\<close> below \<open>100\<close>, \<open>MED\<close> from \<open>100\<close> to below \<open>1000\<close>
  and \<open>HIGH\<close> from \<open>1000\<close> on; an argument that \<open>float\<close> rejects gives \<open>UNK\<close>.  The guesses of
  the extractor are never negative, so for them \<open>LOW\<close> is the range from \<open>0\<close> to below
  \<open>100\<close>.
\<close>

lemma amt_token_buckets:
  assumes "py_float v = Some (Fin x)"
  shows "(amt_token v = ''AMOUNT_BIN:LOW'' \<longleftrightarrow> x < 100) \<and>
         (amt_token v = ''AMOUNT_BIN:MED'' \<longleftrightarrow> 100 \<le> x \<and> x < 1000) \<and>
         (amt_token v = ''AMOUNT_BIN:HIGH'' \<longleftrightarrow> 1000 \<le> x) \<and>
         amt_token v \<noteq> ''AMOUNT_BIN:UNK''"
  using assms by (auto simp: amt_token_def)

lemma amt_token_unk:
  "py_float v = None \<Longrightarrow> amt_token v = ''AMOUNT_BIN:UNK''"
  by (simp add: amt_token_def)

lemma extract_amount_guess_nonneg: "extract_amount_guess text = Some v \<Longrightarrow> 0 \<le> v"
  by (auto simp: extract_amount_guess_def Let_def split: if_splits list.splits)

text \<open>
  C7.  The claim holds for the amounts that the extractor finds and for \<open>None\<close>, and it
  fails on the float NaN, which is how pandas hands a missing amount cell to \<open>amt_token\<close>
  (and what \<open>main\<close> of train\_model.py fills in for a missing amount column): \<open>float\<close>
  accepts a NaN, both comparisons with it are false, and the token is \<open>HIGH\<close>, where the
  claim says \<open>UNK\<close> for an input that is absent or no number.
\<close>

theorem amt_token_nan:
  "amt_token (PyFloat NaN) = ''AMOUNT_BIN:HIGH'' \<and>
   ml_amt_token (PyFloat NaN) = ''AMOUNT_BIN:HIGH'' \<and>
   amt_token PyNone = ''AMOUNT_BIN:UNK''"
  by (simp add: amt_token_def ml_amt_token_def)


section \<open>Scenario A, step by step\<close>

lemma body_A: "extract_text_body (root msg_A) = ''Please pay $250.00 to acme.com''"
  by (simp add: msg_A_def is_attachment_def py_strip_def py_lstrip_def py_rstrip_def
      is_space_def lower_char_def NL_def)

lemma atts_A: "list_attachments (root msg_A) = [(''invoice.pdf'', 1000, True)]"
  by (simp add: msg_A_def list_attachments_def is_attachment_def lower_char_def
      suffix_to_prefix)

lemma gate_A:
  "looks_like_invoice (hdr_subject msg_A) (extract_text_body (root msg_A)) atts
     = (True, ''keyword'')"
  unfolding body_A by (simp add: msg_A_def looks_like_invoice_def NL_def lower_char_def)

lemma amount_A:
  "extract_amount_guess (hdr_subject msg_A @ NL @ extract_text_body (root msg_A)) = Some 1234"
  unfolding body_A
  by (simp add: msg_A_def extract_amount_guess_def is_digit_def dec_def digit_val_def NL_def)

lemma amount_body_A: "extract_amount_guess (extract_text_body (root msg_A)) = Some 250"
  unfolding body_A by (simp add: extract_amount_guess_def is_digit_def dec_def digit_val_def)

lemma dom_A:
  "domain_from_header parseaddr_A (hdr_from msg_A) = ''acme.com''"
  "domain_from_header parseaddr_A (hdr_reply_to msg_A) = []"
  by (simp_all add: msg_A_def domain_from_header_def parseaddr_A_def lower_char_def)

lemma types_A: "attachment_types_from_list [''invoice.pdf''] = ''pdf''"
  by (simp add: attachment_types_from_list_def splitext_ext_def py_strip_def py_lstrip_def
      py_rstrip_def is_space_def lower_char_def)

text \<open>
  C2.  On the message of scenario A the gate accepts with reason \<open>keyword\<close>, and the row
  has \<open>HasPDF\<close> true, \<open>FromDomain\<close> \<open>acme.com\<close> and \<open>AttachmentTypes\<close> \<open>pdf\<close>, as the claim
  says.  The amount differs: the loop hands subject and body to the extractor, whose
  search stops at the first run of digits, the invoice number \<open>1234\<close> of the subject.  So
  \<open>AmountGuess\<close> is \<open>1234\<close> and the token is \<open>HIGH\<close>, where the claim says \<open>250.00\<close> and \<open>MED\<close>.
  On the body alone, which is what the docstring of the extractor names, the guess is
  \<open>250\<close>.
\<close>

theorem scenario_A_row:
  "map (\<lambda>r. (Reason r, HasPDF r, FromDomain r, AttachmentTypes r, AmountGuess r))
       (ledger (process_all (env_A ld [1]) 200 \<lparr>ledger = [], count = 0\<rparr>))
     = [(''keyword'', True, ''acme.com'', ''pdf'', Some 1234)]
   \<and> ml_amt_token (PyFloat (Fin 1234)) = ''AMOUNT_BIN:HIGH''
   \<and> extract_amount_guess (extract_text_body (root msg_A)) = Some 250"
proof -
  have "process_ids (env_A ld [1]) st [1] = process_message (env_A ld [1]) st 1" for st
    by simp
  moreover have "map (\<lambda>r. (Reason r, HasPDF r, FromDomain r, AttachmentTypes r, AmountGuess r))
       (ledger (process_message (env_A ld [1]) \<lparr>ledger = [], count = 0\<rparr> 1))
     = [(''keyword'', True, ''acme.com'', ''pdf'', Some 1234)]"
    by (simp add: process_message_def env_A_def Let_def gate_A atts_A amount_A dom_A types_A
        split: prod.split)
  moreover have "batch 200 [1::nat] = [1]"
    by (simp add: batch_def py_slice_from_def)
  ultimately show ?thesis
    by (simp add: process_all_def env_A_def amount_body_A ml_amt_token_def)
qed


section \<open>The batch and the order of the ledger\<close>

text \<open>
  Every step of the loop leaves the rows that are there and appends the rows of its own
  message behind them, so the ledger after the loop is the ledger before it followed by
  the rows of the visited identifiers, in the order of the visits.
\<close>

lemma process_message_appends:
  "ledger (process_message e st msg_id) = ledger st @ new_rows e msg_id"
  by (simp add: new_rows_def process_message_def Let_def split: prod.split)

lemma process_ids_appends:
  "ledger (process_ids e st ids) = ledger st @ concat (map (new_rows e) ids)"
  by (induction ids arbitrary: st) (simp_all add: process_message_appends)

lemma new_rows_length: "length (new_rows e msg_id) \<le> 1"
  by (simp add: new_rows_def process_message_def Let_def split: prod.split)

lemma batch_zero: "batch 0 ids = rev ids"
  by (simp add: batch_def py_slice_from_def)

lemma process_all_ledger:
  assumes "search e = (''OK'', ids)"
  shows "ledger (process_all e limit st) = ledger st @ concat (map (new_rows e) (batch limit ids))"
  using assms by (simp add: process_all_def process_ids_appends)

text \<open>
  For a limit of at least \<open>1\<close> the batch is the \<open>min(limit, 200)\<close> last identifiers of the
  listing, the last one first.
\<close>

lemma slice_neg:
  assumes "0 < k"
  shows "py_slice_from (- int k) ids = drop (length ids - k) ids"
proof -
  have "nat (max (int (length ids) - int k) 0) = length ids - k" by (simp add: max_def) linarith
  with assms show ?thesis by (simp add: py_slice_from_def Let_def)
qed

lemma batch_positive:
  assumes "1 \<le> limit"
  shows "batch limit ids = take (nat (min limit 200)) (rev ids)"
    and "int (length (batch limit ids)) \<le> limit"
    and "length (batch limit ids) \<le> 200"
proof -
  let ?k = "nat (min limit 200)"
  from assms have k1: "0 < ?k" by (simp add: min_def)
  from assms have k2: "?k \<le> 200" by (simp add: min_def) linarith
  from assms have k3: "int ?k \<le> limit" by (simp add: min_def)
  from assms have k4: "int ?k = min limit 200" by (simp add: min_def)
  have "py_slice_from (- min limit 200) ids = drop (length ids - ?k) ids"
    using slice_neg [OF k1, of ids] unfolding k4 .
  then show 1: "batch limit ids = take ?k (rev ids)"
    by (simp add: batch_def take_rev)
  have "length (take ?k (rev ids)) \<le> ?k" by simp
  then show "int (length (batch limit ids)) \<le> limit" using k3 unfolding 1 by linarith
  show "length (batch limit ids) \<le> 200" using k2 unfolding 1 by simp
qed

text \<open>In the mailbox of scenario A every identifier brings one row.\<close>

lemma new_rows_A: "length (new_rows (env_A ld ids) i) = 1"
  by (simp add: new_rows_def process_message_def env_A_def Let_def gate_A split: prod.split)

text \<open>
  C3.  For a limit of at least \<open>1\<close> the loop does what the claim says (lemmas
  \<open>batch_positive\<close> and \<open>process_all_ledger\<close>).  For the limit \<open>0\<close> it does not: \<open>-min(0, 200)\<close>
  is \<open>0\<close>, the slice \<open>msg_ids[0:]\<close> is the whole listing, and the loop visits every message
  of the mailbox, where the claim says at most \<open>limit\<close>, that is none.  On a mailbox of three
  invoice messages the run with limit \<open>0\<close> appends three rows.
\<close>

theorem limit_zero_whole_mailbox:
  "batch 0 [1, 2, 3 :: nat] = [3, 2, 1] \<and>
   length (ledger (process_all (env_A ld [1, 2, 3]) 0 \<lparr>ledger = [], count = 0\<rparr>)) = 3"
proof -
  have b: "batch 0 [1, 2, 3 :: nat] = [3, 2, 1]" by (simp add: batch_zero)
  have s: "search (env_A ld [1, 2, 3]) = (''OK'', [1, 2, 3])" by (simp add: env_A_def)
  show ?thesis
    unfolding process_all_ledger [OF s] b by (simp add: new_rows_A)
qed


section \<open>A failing scoring call\<close>

lemma predict_load_fails: "predict_email_risk (Inl ex) s b fd rd att amt = Inl ex"
  by (simp add: predict_email_risk_def)

text \<open>
  C4.  When the message of an identifier is fetched and accepted by the gate, and the
  scoring call on its fields raises an exception, the loop appends the row of the message
  with the two cells \<open>ML Risk Score\<close> and \<open>ML Top Tokens\<close> empty, counts it, and goes on with
  the identifiers that remain.  A missing model artefact is such an exception: \<open>_load()\<close>
  raises inside the scoring call (lemma \<open>predict_load_fails\<close>).
\<close>

theorem scoring_failure_keeps_row:
  assumes "fetch e msg_id = (''OK'', msg)"
    and "looks_like_invoice (hdr_subject msg) (extract_text_body (root msg))
           (list_attachments (root msg)) = (True, why)"
    and "predict_email_risk (ml_load e) (Some (hdr_subject msg))
           (Some (extract_text_body (root msg)))
           (Some (domain_from_header (parseaddr e) (hdr_from msg)))
           (Some (domain_from_header (parseaddr e) (hdr_reply_to msg)))
           (Some (attachment_types_from_list (map fst (list_attachments (root msg)))))
           (case extract_amount_guess (hdr_subject msg @ NL @ extract_text_body (root msg)) of
              None \<Rightarrow> PyNone | Some v \<Rightarrow> PyFloat (Fin v)) = Inl ex"
  shows "process_ids e st (msg_id # rest) =
         process_ids e
           (st\<lparr>ledger := ledger st @
                 [\<lparr>From = hdr_from msg, Subject = hdr_subject msg, Date = hdr_date msg,
                   HasPDF = (\<exists>a \<in> set (list_attachments (root msg)). snd (snd a)),
                   AttachmentNames = py_join '', '' (map fst (list_attachments (root msg))),
                   Reason = why, MessageID = hdr_message_id msg,
                   FromDomain = domain_from_header (parseaddr e) (hdr_from msg),
                   ReplyDomain = domain_from_header (parseaddr e) (hdr_reply_to msg),
                   AttachmentTypes =
                     attachment_types_from_list (map fst (list_attachments (root msg))),
                   AmountGuess =
                     extract_amount_guess (hdr_subject msg @ NL @ extract_text_body (root msg)),
                   MLRiskScore = None, MLTopTokens = []\<rparr>],
               count := count st + 1\<rparr>) rest"
proof -
  have t: "try_predict (ml_load e) (hdr_subject msg) (extract_text_body (root msg))
           (domain_from_header (parseaddr e) (hdr_from msg))
           (domain_from_header (parseaddr e) (hdr_reply_to msg))
           (attachment_types_from_list (map fst (list_attachments (root msg))))
           (extract_amount_guess (hdr_subject msg @ NL @ extract_text_body (root msg)))
         = (None, [])"
    unfolding try_predict_def assms(3) by simp
  have "process_message e st msg_id
      = st\<lparr>ledger := ledger st @
                 [\<lparr>From = hdr_from msg, Subject = hdr_subject msg, Date = hdr_date msg,
                   HasPDF = (\<exists>a \<in> set (list_attachments (root msg)). snd (snd a)),
                   AttachmentNames = py_join '', '' (map fst (list_attachments (root msg))),
                   Reason = why, MessageID = hdr_message_id msg,
                   FromDomain = domain_from_header (parseaddr e) (hdr_from msg),
                   ReplyDomain = domain_from_header (parseaddr e) (hdr_reply_to msg),
                   AttachmentTypes =
                     attachment_types_from_list (map fst (list_attachments (root msg))),
                   AmountGuess =
                     extract_amount_guess (hdr_subject msg @ NL @ extract_text_body (root msg)),
                   MLRiskScore = None, MLTopTokens = []\<rparr>],
               count := count st + 1\<rparr>"
    unfolding process_message_def Let_def assms(1) by (simp add: assms(2) t)
  then show ?thesis by simp
qed

theorem scoring_failure_keeps_row_witness:
  "map (\<lambda>r. (Subject r, AmountGuess r, MLRiskScore r, MLTopTokens r))
     (ledger (process_all (env_A (Inl (Exn ''FileNotFoundError'')) [1, 2]) 200
                \<lparr>ledger = [], count = 0\<rparr>))
     = [(''Invoice #1234 due'', Some 1234, None, []),
        (''Invoice #1234 due'', Some 1234, None, [])]
   \<and> count (process_all (env_A (Inl (Exn ''FileNotFoundError'')) [1, 2]) 200
               \<lparr>ledger = [], count = 0\<rparr>) = 2"
proof -
  let ?e = "env_A (Inl (Exn ''FileNotFoundError'')) [1, 2]"
  have f: "fetch ?e i = (''OK'', msg_A)" for i
    by (simp add: env_A_def)
  have p: "predict_email_risk (ml_load ?e) s b fd rd att amt = Inl (Exn ''FileNotFoundError'')"
    for s b fd rd att amt
    by (simp add: env_A_def predict_load_fails)
  note step = scoring_failure_keeps_row [OF f gate_A p]
  have "process_all ?e 200 st = process_ids ?e st [2, 1]" for st
    by (simp add: process_all_def env_A_def batch_def py_slice_from_def)
  then show ?thesis
    unfolding step by (simp add: amount_A) (simp add: msg_A_def)
qed


section \<open>The risk score and the explanation\<close>

text \<open>\<open>round\<close> returns an integer nearest to its argument, and never passes an integer
  bound on its argument.\<close>

lemma py_round_nearest: "\<bar>real_of_int (py_round x) - x\<bar> \<le> 1 / 2"
proof -
  have "of_int \<lfloor>x\<rfloor> \<le> x" "x < of_int \<lfloor>x\<rfloor> + 1" by linarith+
  then show ?thesis by (auto simp: py_round_def Let_def)
qed

lemma py_round_nonneg: "0 \<le> y \<Longrightarrow> 0 \<le> py_round y"
  by (auto simp: py_round_def Let_def)

lemma py_round_le_int: "y \<le> real_of_int k \<Longrightarrow> py_round y \<le> k"
proof -
  assume le: "y \<le> real_of_int k"
  then have f: "\<lfloor>y\<rfloor> \<le> k" by (simp add: floor_le_iff)
  show ?thesis
  proof (cases "y = of_int \<lfloor>y\<rfloor>")
    case True
    then have "py_round y = \<lfloor>y\<rfloor>" by (simp add: py_round_def Let_def)
    with f show ?thesis by simp
  next
    case False
    then have "of_int \<lfloor>y\<rfloor> < y" by linarith
    with le have "\<lfloor>y\<rfloor> < k" by linarith
    moreover have "py_round y \<le> \<lfloor>y\<rfloor> + 1" by (simp add: py_round_def Let_def)
    ultimately show ?thesis by linarith
  qed
qed

text \<open>The exponent of a positive real.\<close>

lemma expo_bounds:
  "0 < x \<Longrightarrow> 2 powi (expo x) \<le> x \<and> x < 2 powi (expo x + 1)"
proof (induction x rule: expo.induct)
  case (1 x)
  show ?case
  proof (cases "2 \<le> x")
    case True
    then have e: "expo x = expo (x / 2) + 1" using 1(3) by (simp add: expo.simps)
    have "2 powi (expo (x / 2)) \<le> x / 2 \<and> x / 2 < 2 powi (expo (x / 2) + 1)"
      using 1(1) [OF _ True] 1(3) by simp
    then show ?thesis unfolding e by (simp add: power_int_add)
  next
    case False
    show ?thesis
    proof (cases "x < 1")
      case True
      then have e: "expo x = expo (x * 2) - 1" using 1(3) False by (simp add: expo.simps)
      have "2 powi (expo (x * 2)) \<le> x * 2 \<and> x * 2 < 2 powi (expo (x * 2) + 1)"
        using 1(2) [OF _ False True] 1(3) by simp
      then show ?thesis unfolding e by (simp add: power_int_add power_int_diff)
    next
      case nl: False
      with False 1(3) have "expo x = 0" by (simp add: expo.simps)
      with False nl show ?thesis by simp
    qed
  qed
qed

text \<open>
  A real between \<open>0\<close> and \<open>100\<close> rounds to a double between \<open>0\<close> and \<open>100\<close> (both are
  doubles, and the rounding is monotone), at most \<open>2 ^ -47\<close> away from it (half a unit in
  the last place below \<open>128\<close>).
\<close>

lemma double_round_range:
  assumes "0 \<le> x" "x \<le> 100"
  shows "\<exists>y. double_round x = Fin y \<and> 0 \<le> y \<and> y \<le> 100 \<and> \<bar>y - x\<bar> \<le> 1 / 2 ^ 47"
proof (cases "x = 0")
  case True
  then show ?thesis by (simp add: double_round_def)
next
  case False
  with assms have pos: "0 < x" by simp
  define e where "e = max (expo \<bar>x\<bar>) (- 1022)"
  define ulp :: real where "ulp = 2 powi (e - 52)"
  define m where "m = py_round (\<bar>x\<bar> / ulp)"
  define y where "y = real_of_int m * ulp"
  have up: "0 < ulp" by (simp add: ulp_def)
  from expo_bounds [OF pos] assms have "2 powi (expo x) < (2::real) powi 7" by simp
  then have "expo x < 7" by (rule power_int_le_imp_less_exp [rotated]) simp_all
  then have e6: "e \<le> 6" using pos by (simp add: e_def)
  have "ulp \<le> 2 powi (- 46)"
    unfolding ulp_def using e6 by (intro power_int_increasing) simp_all
  then have ulp46: "ulp \<le> 1 / 2 ^ 46" by simp
  have "\<bar>real_of_int m - x / ulp\<bar> \<le> 1 / 2"
    using py_round_nearest [of "x / ulp"] pos by (simp add: m_def)
  then have "\<bar>real_of_int m - x / ulp\<bar> * ulp \<le> 1 / 2 * ulp"
    using up by (intro mult_right_mono) simp_all
  moreover have "\<bar>real_of_int m - x / ulp\<bar> * ulp = \<bar>y - x\<bar>"
    using up by (simp add: y_def abs_mult [symmetric, of _ ulp, simplified] left_diff_distrib abs_mult_pos)
  ultimately have near: "\<bar>y - x\<bar> \<le> 1 / 2 ^ 47" using ulp46 by simp
  have "0 \<le> m" using pos up by (simp add: m_def py_round_nonneg)
  then have y0: "0 \<le> y" using up by (simp add: y_def)
  have k: "100 / ulp = real_of_int (100 * 2 ^ nat (52 - e))"
  proof -
    have "1 / ulp = 2 powi (52 - e)"
      by (simp add: ulp_def power_int_minus_divide [symmetric])
    also have "\<dots> = 2 ^ nat (52 - e)" using e6 by (simp add: power_int_def)
    finally show ?thesis by simp
  qed
  have "x / ulp \<le> 100 / ulp" using assms up by (simp add: divide_right_mono)
  then have "m \<le> 100 * 2 ^ nat (52 - e)"
    unfolding k m_def using pos by (intro py_round_le_int) simp
  then have "real_of_int m \<le> 100 / ulp" unfolding k by linarith
  then have y100: "y \<le> 100" using up by (simp add: y_def pos_le_divide_eq)
  have "y < 2 powi 1024" using y100 by simp
  then have "double_round x = Fin y"
    using pos by (simp add: double_round_def Let_def e_def ulp_def m_def y_def)
  with y0 y100 near show ?thesis by blast
qed

text \<open>
  The pairs of the explanation: at most five, by falling weight, each the token and the
  weight of a vocabulary index that occurs in the text, and each weight positive.
\<close>

lemma top_pairs_props:
  assumes "top_pairs m X = Inr ps"
  shows "length ps \<le> 5"
    and "sorted_wrt (\<lambda>a b. snd b \<le> snd a) ps"
    and "\<forall>(t, w) \<in> set ps. 0 < w \<and>
           (\<exists>feats weights. vec_get_feature_names_out m = Inr feats \<and> clf_coef m = Inr weights \<and>
              (\<exists>i \<in> set X. i < length feats \<and> i < length weights \<and>
                 t = feats ! i \<and> w = weights ! i))"
proof -
  from assms obtain feats weights where
    f: "vec_get_feature_names_out m = Inr feats" and w: "clf_coef m = Inr weights"
    and ok: "\<forall>i \<in> set X. i < length feats \<and> i < length weights"
    and ps: "ps = take 5 (filter (\<lambda>(t, w). 0 < w)
                (take 5 (sort_key (\<lambda>x. - snd x) (map (\<lambda>i. (feats ! i, weights ! i)) X))))"
    by (auto simp: top_pairs_def Let_def not_le split: sum.splits if_splits)
  let ?toks = "sort_key (\<lambda>x. - snd x) (map (\<lambda>i. (feats ! i, weights ! i)) X)"
  show "length ps \<le> 5" by (simp add: ps)
  have "sorted (map (\<lambda>x. - snd x) ?toks)" by (rule sorted_sort_key)
  then have "sorted_wrt (\<lambda>a b. snd b \<le> snd a) ?toks" by (simp add: sorted_map)
  then have "sorted_wrt (\<lambda>a b. snd b \<le> snd a) (take 5 ?toks)" by (rule sorted_wrt_take)
  then have "sorted_wrt (\<lambda>a b. snd b \<le> snd a) (filter (\<lambda>(t, w). 0 < w) (take 5 ?toks))"
    by (rule sorted_wrt_filter)
  then show "sorted_wrt (\<lambda>a b. snd b \<le> snd a) ps" unfolding ps by (rule sorted_wrt_take)
  have "set ps \<subseteq> {x \<in> set ?toks. 0 < snd x}"
    unfolding ps by (auto dest!: in_set_takeD)
  then show "\<forall>(t, w) \<in> set ps. 0 < w \<and>
           (\<exists>feats weights. vec_get_feature_names_out m = Inr feats \<and> clf_coef m = Inr weights \<and>
              (\<exists>i \<in> set X. i < length feats \<and> i < length weights \<and>
                 t = feats ! i \<and> w = weights ! i))"
    using f w ok by auto
qed

text \<open>
  C5, as the claim states it, fails on the rounding: the score is the rounding of the
  double product \<open>proba*100\<close>, not of the exact product.  For the double nearest to \<open>0.005\<close>
  the exact product is a little above \<open>0.5\<close>, whose nearest integer is \<open>1\<close>; the double
  product is \<open>0.5\<close> itself, a tie, which \<open>round\<close> sends to the even integer \<open>0\<close>.  The score
  \<open>0\<close> is more than one half away from the exact product.
\<close>

theorem risk_score_of_double_0_005:
  "0 \<le> double_0_005 \<and> double_0_005 \<le> 1 \<and>
   predict_email_risk (Inr (model_W double_0_005)) (Some ''Invoice'') (Some ''urgent wire'')
       (Some ''acme.com'') None None PyNone = Inr (0, [''urgent'', ''invoice'']) \<and>
   double_round (double_0_005 * 100) = Fin (1 / 2) \<and>
   py_round (double_0_005 * 100) = 1 \<and>
   \<not> \<bar>real_of_int 0 - double_0_005 * 100\<bar> \<le> 1 / 2"
proof -
  have d: "double_round (double_0_005 * 100) = Fin (1 / 2)"
    by (simp add: double_0_005_def double_round_def expo.simps py_round_def Let_def)
  have r: "py_round (1 / 2) = 0" by (simp add: py_round_def)
  have tp: "top_pairs (model_W double_0_005) [0, 1, 2, 3] = Inr [(''urgent'', 2), (''invoice'', 1 / 2)]"
    by (simp add: top_pairs_def model_W_def)
  have vt: "vec_transform (model_W double_0_005) doc = Inr [0, 1, 2, 3]" for doc
    by (simp add: model_W_def)
  have cp: "clf_predict_proba (model_W double_0_005) X = Inr double_0_005" for X
    by (simp add: model_W_def)
  have call: "predict_email_risk (Inr (model_W double_0_005)) (Some ''Invoice'')
       (Some ''urgent wire'') (Some ''acme.com'') None None PyNone = Inr (0, [''urgent'', ''invoice''])"
    by (simp add: predict_email_risk_def vt cp d r tp del: One_nat_def)
  have e: "py_round (double_0_005 * 100) = 1"
    by (simp add: double_0_005_def py_round_def Let_def)
  have b0: "0 \<le> double_0_005" and b1: "double_0_005 \<le> 1"
    by (simp_all add: double_0_005_def)
  have far: "\<not> \<bar>real_of_int 0 - double_0_005 * 100\<bar> \<le> 1 / 2"
    by (simp add: double_0_005_def)
  from b0 b1 call d e far show ?thesis by blast
qed

text \<open>
  C5, amended.  When the model is loaded, the text is vectorised and the classifier
  returns a positive-class probability \<open>p\<close> between \<open>0\<close> and \<open>1\<close>, the scoring call returns.
  Its risk score is the double product \<open>p*100\<close>, which lies between \<open>0\<close> and \<open>100\<close> and at
  most \<open>2 ^ -47\<close> away from the exact product, rounded to a nearest integer (at most one
  half away from the double product, a tie going to the even integer; not the
  truncation); the score lies between \<open>0\<close> and \<open>100\<close>.  The returned tokens are at most
  five.  When the explanation fails they are none and the call returns all the same;
  otherwise they are the tokens of pairs that are ordered by falling weight, each pair a
  vocabulary token that occurs in the vectorised text with its weight, and each weight
  positive.
\<close>

theorem predict_email_risk_result:
  assumes "vec_transform m (ml_combine s b fd rd att amt) = Inr X"
    and "clf_predict_proba m X = Inr p" and "0 \<le> p" and "p \<le> 1"
  shows "\<exists>x toks. double_round (p * 100) = Fin x \<and> \<bar>x - p * 100\<bar> \<le> 1 / 2 ^ 47
     \<and> 0 \<le> x \<and> x \<le> 100
     \<and> predict_email_risk (Inr m) s b fd rd att amt = Inr (py_round x, toks)
     \<and> \<bar>real_of_int (py_round x) - x\<bar> \<le> 1 / 2
     \<and> 0 \<le> py_round x \<and> py_round x \<le> 100
     \<and> length toks \<le> 5
     \<and> (case top_pairs m X of
          Inl ex \<Rightarrow> toks = []
        | Inr ps \<Rightarrow> toks = map fst ps \<and> sorted_wrt (\<lambda>a b. snd b \<le> snd a) ps \<and>
            (\<forall>(t, w) \<in> set ps. 0 < w \<and>
               (\<exists>feats weights. vec_get_feature_names_out m = Inr feats \<and>
                  clf_coef m = Inr weights \<and>
                  (\<exists>i \<in> set X. i < length feats \<and> i < length weights \<and>
                     t = feats ! i \<and> w = weights ! i))))"
proof -
  from assms(3,4) have "0 \<le> p * 100" "p * 100 \<le> 100" by simp_all
  from double_round_range [OF this] obtain x where
    x: "double_round (p * 100) = Fin x" "0 \<le> x" "x \<le> 100" "\<bar>x - p * 100\<bar> \<le> 1 / 2 ^ 47"
    by blast
  let ?toks = "case top_pairs m X of Inl ex \<Rightarrow> [] | Inr ps \<Rightarrow> map fst ps"
  have call: "predict_email_risk (Inr m) s b fd rd att amt = Inr (py_round x, ?toks)"
    by (simp add: predict_email_risk_def assms(1,2) x(1))
  have "py_round x \<le> 100"
    by (rule py_round_le_int) (use x(3) in simp)
  with py_round_nonneg [OF x(2)]
  have range: "0 \<le> py_round x \<and> py_round x \<le> 100" by simp
  have expl: "length ?toks \<le> 5 \<and> (case top_pairs m X of
          Inl ex \<Rightarrow> ?toks = []
        | Inr ps \<Rightarrow> ?toks = map fst ps \<and> sorted_wrt (\<lambda>a b. snd b \<le> snd a) ps \<and>
            (\<forall>(t, w) \<in> set ps. 0 < w \<and>
               (\<exists>feats weights. vec_get_feature_names_out m = Inr feats \<and>
                  clf_coef m = Inr weights \<and>
                  (\<exists>i \<in> set X. i < length feats \<and> i < length weights \<and>
                     t = feats ! i \<and> w = weights ! i))))"
  proof (cases "top_pairs m X")
    case (Inl ex)
    then show ?thesis by simp
  next
    case (Inr ps)
    with top_pairs_props [OF Inr] show ?thesis by simp
  qed
  from x call range expl py_round_nearest [of x] show ?thesis by blast
qed

theorem predict_email_risk_result_witness:
  "(0::real) \<le> 7 / 8 \<and> (7::real) / 8 \<le> 1 \<and>
   double_round (7 / 8 * 100) = Fin (175 / 2) \<and>
   predict_email_risk (Inr (model_W (7 / 8))) (Some ''Invoice'') (Some ''urgent wire'')
       (Some ''acme.com'') None None PyNone = Inr (88, [''urgent'', ''invoice'']) \<and>
   top_pairs (model_W (7 / 8)) [0, 1, 2, 3] = Inr [(''urgent'', 2), (''invoice'', 1 / 2)]"
proof -
  have t: "vec_transform (model_W (7 / 8)) (ml_combine (Some ''Invoice'') (Some ''urgent wire'')
             (Some ''acme.com'') None None PyNone) = Inr [0, 1, 2, 3]"
    by (simp add: model_W_def)
  have c: "clf_predict_proba (model_W (7 / 8)) [0, 1, 2, 3] = Inr (7 / 8)"
    by (simp add: model_W_def)
  have tp: "top_pairs (model_W (7 / 8)) [0, 1, 2, 3] = Inr [(''urgent'', 2), (''invoice'', 1 / 2)]"
    by (simp add: top_pairs_def model_W_def)
  have d: "double_round (7 / 8 * 100) = Fin (175 / 2)"
    by (simp add: double_round_def expo.simps py_round_def Let_def)
  have r: "py_round (175 / 2) = 88"
    by (simp add: py_round_def)
  from predict_email_risk_result [OF t c]
  obtain x toks where
    dx: "double_round (7 / 8 * 100) = Fin x"
    and call: "predict_email_risk (Inr (model_W (7 / 8))) (Some ''Invoice'') (Some ''urgent wire'')
       (Some ''acme.com'') None None PyNone = Inr (py_round x, toks)"
    and expl: "case top_pairs (model_W (7 / 8)) [0, 1, 2, 3] of Inl ex \<Rightarrow> toks = []
         | Inr ps \<Rightarrow> toks = map fst ps \<and> sorted_wrt (\<lambda>a b. snd b \<le> snd a) ps \<and>
            (\<forall>(t, w) \<in> set ps. 0 < w \<and>
               (\<exists>feats weights. vec_get_feature_names_out (model_W (7 / 8)) = Inr feats \<and>
                  clf_coef (model_W (7 / 8)) = Inr weights \<and>
                  (\<exists>i \<in> set [0, 1, 2, 3]. i < length feats \<and> i < length weights \<and>
                     t = feats ! i \<and> w = weights ! i)))"
    by auto
  from dx d have x: "x = 175 / 2" by simp
  from expl have toks: "toks = [''urgent'', ''invoice'']" unfolding tp by simp
  from call have "predict_email_risk (Inr (model_W (7 / 8))) (Some ''Invoice'')
       (Some ''urgent wire'') (Some ''acme.com'') None None PyNone = Inr (88, [''urgent'', ''invoice''])"
    unfolding x toks r .
  with d tp show ?thesis by simp
qed


section \<open>The body text of a message\<close>

lemma is_attachment_simps [simp]:
  "is_attachment (Leaf c d f t n) = py_in ''attachment'' (py_lower d)"
  "is_attachment (Multi c d f ps) = py_in ''attachment'' (py_lower d)"
  by (simp_all add: is_attachment_def)

lemma walk_plain_texts:
  "map part_text (filter (\<lambda>part. ctype part = ''text/plain'' \<and> \<not> is_attachment part) (walk p))
     = plain_texts p"
proof (induction p)
  case (Leaf c d f t n)
  show ?case by (simp add: plain_inline_def)
next
  case (Multi c d f ps)
  have "concat (map (\<lambda>q. map part_text
          (filter (\<lambda>part. ctype part = ''text/plain'' \<and> \<not> is_attachment part) (walk q))) ps)
        = concat (map plain_texts ps)"
    using Multi.IH by (induction ps) simp_all
  then show ?case
    by (simp add: plain_inline_def filter_concat map_concat comp_def)
qed

lemma strip_NL: "py_strip (NL @ y) = py_strip y"
proof -
  have "py_lstrip (NL @ y) = py_lstrip y"
    by (rule lstrip_blank) (simp add: NL_def)
  then show ?thesis
    by (simp add: py_strip_def strip_commute [symmetric])
qed

lemma strip_join_empty: "py_strip (py_join NL ([] # xs)) = py_strip (py_join NL xs)"
  by (cases xs) (simp_all add: strip_NL)

lemma plain_texts_leaves:
  assumes "\<forall>p \<in> set ps. is_Leaf p"
  shows "concat (map plain_texts ps) = map part_text (filter plain_inline ps)"
  using assms
proof (induction ps)
  case Nil
  show ?case by simp
next
  case (Cons p ps)
  then obtain c d f t n where "p = Leaf c d f t n" by (cases p) auto
  with Cons show ?case by simp
qed

text \<open>
  C6, as the claim states it, fails: \<open>walk\<close> visits the parts at every depth, not the first
  level only.  A plain-text part inside a \<open>multipart/alternative\<close> inside the message is
  part of the body, and no first-level part is plain text.
\<close>

theorem extract_text_body_nested:
  "extract_text_body msg_nested = ''Pay now'' \<and> first_level_text_body msg_nested = [] \<and>
   extract_text_body msg_nested \<noteq> first_level_text_body msg_nested"
  by (simp add: msg_nested_def plain_inline_def lower_char_def
      py_strip_def py_lstrip_def py_rstrip_def is_space_def NL_def)

text \<open>
  C6, amended.  For every multi-part message the body is the newline-joined
  concatenation, in the order of the walk, of the plain-text parts at every depth whose
  own disposition does not mark them as attachments, then trimmed; when none of the
  parts of the message is itself multi-part, these are exactly the first-level parts.  A
  single-part plain-text message yields its own text, and any other single-part message
  the empty text.
\<close>

theorem extract_text_body_parts:
  "extract_text_body (Multi c d f ps) = py_strip (py_join NL (plain_texts (Multi c d f ps)))
   \<and> ((\<forall>p \<in> set ps. is_Leaf p) \<longrightarrow>
        extract_text_body (Multi c d f ps) = first_level_text_body (Multi c d f ps))
   \<and> extract_text_body (Leaf ''text/plain'' d' f' t n) = t
   \<and> (c' \<noteq> ''text/plain'' \<longrightarrow> extract_text_body (Leaf c' d' f' t n) = [])"
proof (intro conjI impI)
  show all: "extract_text_body (Multi c d f ps) = py_strip (py_join NL (plain_texts (Multi c d f ps)))"
    unfolding extract_text_body.simps Let_def walk_plain_texts ..
  show "extract_text_body (Multi c d f ps) = first_level_text_body (Multi c d f ps)"
    if "\<forall>p \<in> set ps. is_Leaf p"
    unfolding all using plain_texts_leaves [OF that]
    by (simp add: strip_join_empty del: py_join.simps)
  show "extract_text_body (Leaf ''text/plain'' d' f' t n) = t" by simp
  show "extract_text_body (Leaf c' d' f' t n) = []" if "c' \<noteq> ''text/plain''"
    using that by simp
qed

theorem extract_text_body_parts_witness:
  "is_Leaf (Leaf ''text/plain'' [] [] ''Hello '' 6) \<and>
   is_Leaf (Leaf ''text/plain'' ''attachment; filename=notes.txt'' ''notes.txt'' ''notes'' 5) \<and>
   is_Leaf (Leaf ''text/plain'' [] [] ''Bye '' 4) \<and>
   ''text/html'' \<noteq> ''text/plain'' \<and>
   extract_text_body (Multi ''multipart/mixed'' [] []
     [Leaf ''text/plain'' [] [] ''Hello '' 6,
      Leaf ''text/plain'' ''attachment; filename=notes.txt'' ''notes.txt'' ''notes'' 5,
      Leaf ''text/plain'' [] [] ''Bye '' 4]) = ''Hello '' @ NL @ ''Bye'' \<and>
   extract_text_body (Leaf ''text/plain'' [] [] ''Hello '' 6) = ''Hello '' \<and>
   extract_text_body (Leaf ''text/html'' [] [] ''Hello '' 6) = []"
proof -
  let ?ps = "[Leaf ''text/plain'' [] [] ''Hello '' 6,
      Leaf ''text/plain'' ''attachment; filename=notes.txt'' ''notes.txt'' ''notes'' 5,
      Leaf ''text/plain'' [] [] ''Bye '' 4]"
  have leaves: "\<forall>p \<in> set ?ps. is_Leaf p" by simp
  have fl: "first_level_text_body (Multi ''multipart/mixed'' [] [] ?ps) = ''Hello '' @ NL @ ''Bye''"
    by (simp add: plain_inline_def lower_char_def py_strip_def py_lstrip_def py_rstrip_def
        is_space_def NL_def)
  note inst = extract_text_body_parts [where c = "''multipart/mixed''" and d = "[]" and f = "[]"
      and ps = ?ps and c' = "''text/html''" and d' = "[]" and f' = "[]" and t = "''Hello ''" and n = 6]
  have e: "extract_text_body (Multi ''multipart/mixed'' [] [] ?ps)
             = first_level_text_body (Multi ''multipart/mixed'' [] [] ?ps)"
    by (rule inst [THEN conjunct2, THEN conjunct1, THEN mp, OF leaves])
  show ?thesis
    unfolding e fl by simp
qed

end
